theory Spec2Isabelle
  imports Complex_Main "HOL-Library.AList"
begin

section \<open>Python values\<close>

text \<open>
  The forwarder of \<^verbatim>\<open>consumer.py\<close> moves values of three kinds: byte strings read from
  the broker, text, and the values \<^verbatim>\<open>json.loads\<close> returns. A Python \<^verbatim>\<open>float\<close> is
  an IEEE 754 double: a finite one is kept as the rational number it is, beside the three
  non-finite values \<^verbatim>\<open>json.loads\<close> accepts.
\<close>

type_synonym bytes = string
type_synonym pystr = string

datatype pyfloat = Fin rat | PosInf | NegInf | NaN

text \<open>
  A \<^verbatim>\<open>dict\<close> keeps its keys in insertion order, so an object is an association list;
  lookup is \<open>map_of\<close> and assignment \<^verbatim>\<open>d[k] = v\<close> is \<open>AList.update\<close> (replace in place,
  or append a new key at the end).
\<close>

datatype json =
    JNull
  | JBool bool
  | JInt int
  | JFloat pyfloat
  | JStr pystr
  | JList "json list"
  | JObj "(pystr \<times> json) list"

text \<open>
  Every exception and every \<^verbatim>\<open>sys.exit\<close> that can leave a function of the forwarder is a
  value of this type. \<open>GzipError\<close> stands for what \<^verbatim>\<open>gzip.decompress\<close> raises
  (\<^verbatim>\<open>BadGzipFile\<close>, \<^verbatim>\<open>EOFError\<close>, \<^verbatim>\<open>zlib.error\<close>).
\<close>

datatype error =
    GzipError
  | UnicodeDecodeError
  | JSONDecodeError
  | AttributeError
  | KeyError
  | TypeError
  | ValueError
  | OverflowError
  | ZeroDivisionError
  | SystemExit int

subsection \<open>The library functions the forwarder calls\<close>

text \<open>
  \<^verbatim>\<open>gzip.decompress\<close>, \<^verbatim>\<open>bytes.decode('utf-8')\<close>, \<^verbatim>\<open>json.loads\<close>, \<^verbatim>\<open>json.dumps\<close>,
  \<^verbatim>\<open>int\<close> applied to a \<^verbatim>\<open>str\<close>, and the text of the \<^verbatim>\<open>HTTPError\<close> that
  \<^verbatim>\<open>raise_for_status\<close> builds (from status, reason and url) belong to the Python
  runtime and to \<^verbatim>\<open>requests\<close>, not to this program. They are parameters of the model:
  every theorem holds whatever these functions compute.
\<close>

record pylib =
  gzip_decompress :: "bytes \<Rightarrow> error + bytes"
  utf8_decode :: "bytes \<Rightarrow> error + pystr"
  json_loads :: "pystr \<Rightarrow> error + json"
  json_dumps :: "json \<Rightarrow> pystr"
  int_of_str :: "pystr \<Rightarrow> int option"
  http_error_str :: "nat \<Rightarrow> pystr \<Rightarrow> pystr \<Rightarrow> pystr"

subsection \<open>Built-in operations\<close>

text \<open>\<^verbatim>\<open>int(x)\<close> on a float truncates towards zero.\<close>

definition trunc_rat :: "rat \<Rightarrow> int" where
  "trunc_rat q = (if 0 \<le> q then \<lfloor>q\<rfloor> else \<lceil>q\<rceil>)"

text \<open>
  \<^verbatim>\<open>int(x)\<close> on a float: a finite one is truncated, \<^verbatim>\<open>nan\<close> raises \<^verbatim>\<open>ValueError\<close>
  and an infinity \<^verbatim>\<open>OverflowError\<close>.
\<close>

definition int_of_float :: "pyfloat \<Rightarrow> error + int" where
  "int_of_float f =
     (case f of
        Fin q \<Rightarrow> Inr (trunc_rat q)
      | NaN \<Rightarrow> Inl ValueError
      | PosInf \<Rightarrow> Inl OverflowError
      | NegInf \<Rightarrow> Inl OverflowError)"

text \<open>
  \<^verbatim>\<open>int(x)\<close> for the values \<^verbatim>\<open>json.loads\<close> can return: an \<^verbatim>\<open>int\<close> is itself, a
  \<^verbatim>\<open>bool\<close> is 0 or 1, a finite \<^verbatim>\<open>float\<close> is truncated, \<^verbatim>\<open>nan\<close> raises
  \<^verbatim>\<open>ValueError\<close> and an infinity \<^verbatim>\<open>OverflowError\<close>, a \<^verbatim>\<open>str\<close> is parsed (or raises
  \<^verbatim>\<open>ValueError\<close>), and \<^verbatim>\<open>None\<close>, a \<^verbatim>\<open>list\<close> and a \<^verbatim>\<open>dict\<close> raise \<^verbatim>\<open>TypeError\<close>.
\<close>

definition py_int :: "pylib \<Rightarrow> json \<Rightarrow> error + int" where
  "py_int lib v =
     (case v of
        JInt n \<Rightarrow> Inr n
      | JBool b \<Rightarrow> Inr (if b then 1 else 0)
      | JFloat f \<Rightarrow> int_of_float f
      | JStr s \<Rightarrow> (case int_of_str lib s of None \<Rightarrow> Inl ValueError | Some n \<Rightarrow> Inr n)
      | JNull \<Rightarrow> Inl TypeError
      | JList xs \<Rightarrow> Inl TypeError
      | JObj d \<Rightarrow> Inl TypeError)"

subsection \<open>Rounding to a double\<close>

text \<open>
  \<^verbatim>\<open>n.bit_length()\<close>: the number of binary digits of a natural number.
\<close>

fun bit_length :: "nat \<Rightarrow> nat" where
  "bit_length n = (if n = 0 then 0 else Suc (bit_length (n div 2)))"

declare bit_length.simps [simp del]

text \<open>The power of two with an integer exponent.\<close>

definition pow2 :: "int \<Rightarrow> rat" where
  "pow2 e = (if 0 \<le> e then 2 ^ nat e else 1 / 2 ^ nat (- e))"

text \<open>
  For a positive rational \<open>q\<close>, the exponent \<open>e\<close> with \<open>2\<^sup>e \<le> q < 2\<^sup>e\<^sup>+\<^sup>1\<close>: the difference
  of the bit lengths of numerator and denominator, or one less.
\<close>

definition floor_log2 :: "rat \<Rightarrow> int" where
  "floor_log2 q =
     (case quotient_of q of
        (a, b) \<Rightarrow>
          (let d = int (bit_length (nat a)) - int (bit_length (nat b))
           in if pow2 d \<le> q then d else d - 1))"

text \<open>Rounding to the nearest integer, a tie going to the even one.\<close>

definition round_half_even :: "rat \<Rightarrow> int" where
  "round_half_even x =
     (let f = \<lfloor>x\<rfloor>; r = x - rat_of_int f
      in if r < 1 / 2 then f
         else if 1 / 2 < r then f + 1
         else if even f then f else f + 1)"

text \<open>
  The double nearest to a rational, ties to even, the exponent unbounded above: a double
  with exponent \<open>e\<close> is a multiple of \<open>2\<^sup>e\<^sup>-\<^sup>5\<^sup>2\<close> (53 significant bits), and no double is
  finer than \<open>2\<^sup>-\<^sup>1\<^sup>0\<^sup>7\<^sup>4\<close>.
\<close>

definition round_double :: "rat \<Rightarrow> rat" where
  "round_double q =
     (if q = 0 then 0
      else
        (let e = floor_log2 \<bar>q\<bar>;
             p = max (e - 52) (- 1074);
             m = round_half_even (\<bar>q\<bar> / pow2 p)
         in sgn q * rat_of_int m * pow2 p))"

text \<open>
  \<^verbatim>\<open>a / b\<close> on two \<^verbatim>\<open>int\<close>s is true division, which CPython rounds correctly:
  \<^verbatim>\<open>ZeroDivisionError\<close> for a zero divisor, \<^verbatim>\<open>OverflowError\<close> when the quotient rounds
  beyond the largest double (from \<open>2\<^sup>1\<^sup>0\<^sup>2\<^sup>4 - 2\<^sup>9\<^sup>7\<^sup>0\<close> on, half an ulp above it), and
  otherwise the double nearest to the quotient.
\<close>

definition py_truediv :: "int \<Rightarrow> int \<Rightarrow> error + pyfloat" where
  "py_truediv a b =
     (if b = 0 then Inl ZeroDivisionError
      else if 2 ^ 1024 - 2 ^ 970 \<le> \<bar>rat_of_int a / rat_of_int b\<bar> then Inl OverflowError
      else Inr (Fin (round_double (rat_of_int a / rat_of_int b))))"

text \<open>\<^verbatim>\<open>k in d.keys()\<close>, \<^verbatim>\<open>d[k]\<close> and \<^verbatim>\<open>d[k] = v\<close> on a \<^verbatim>\<open>dict\<close>.\<close>

definition has_key :: "(pystr \<times> json) list \<Rightarrow> pystr \<Rightarrow> bool" where
  "has_key d k = (k \<in> set (map fst d))"

definition getitem :: "(pystr \<times> json) list \<Rightarrow> pystr \<Rightarrow> error + json" where
  "getitem d k = (case map_of d k of None \<Rightarrow> Inl KeyError | Some v \<Rightarrow> Inr v)"

definition setitem :: "(pystr \<times> json) list \<Rightarrow> pystr \<Rightarrow> json \<Rightarrow> (pystr \<times> json) list" where
  "setitem d k v = AList.update k v d"

text \<open>\<^verbatim>\<open>str(n)\<close> for a status code.\<close>

fun str_nat :: "nat \<Rightarrow> pystr" where
  "str_nat n =
     (if n < 10 then [char_of (48 + n)]
      else str_nat (n div 10) @ [char_of (48 + n mod 10)])"

declare str_nat.simps [simp del]

section \<open>The Transformer: \<^verbatim>\<open>RabbitToSplunk.add_event\<close>\<close>

text \<open>
  The \<^verbatim>\<open>event\<close> dict of \<^verbatim>\<open>add_event\<close> as it stands before \<^verbatim>\<open>json.dumps\<close> (lines 118
  to 125). \<^verbatim>\<open>json_data.keys()\<close> exists only on a \<^verbatim>\<open>dict\<close>: every other payload raises
  \<^verbatim>\<open>AttributeError\<close>.
\<close>

definition add_event_dict :: "pylib \<Rightarrow> json \<Rightarrow> error + (pystr \<times> json) list" where
  "add_event_dict lib json_data =
     (let event = [(''event'', json_data)] in
      case json_data of
        JObj d \<Rightarrow>
          (case
             (if has_key d ''device_time'' then
                (case getitem d ''device_time'' of
                   Inl e \<Rightarrow> Inl e
                 | Inr dt \<Rightarrow>
                     (case py_int lib dt of
                        Inl e \<Rightarrow> Inl e
                      | Inr n \<Rightarrow>
                          (case py_truediv n 1000 of
                             Inl e \<Rightarrow> Inl e
                           | Inr t \<Rightarrow> Inr (setitem event ''time'' (JFloat t)))))
              else Inr event)
           of
             Inl e \<Rightarrow> Inl e
           | Inr event1 \<Rightarrow>
               (case
                  (if has_key d ''device_name'' then
                     (case getitem d ''device_name'' of
                        Inl e \<Rightarrow> Inl e
                      | Inr v \<Rightarrow> Inr (setitem event1 ''host'' v))
                   else Inr event1)
                of
                  Inl e \<Rightarrow> Inl e
                | Inr event2 \<Rightarrow>
                    (if has_key d ''product_name'' then
                       (case getitem d ''product_name'' of
                          Inl e \<Rightarrow> Inl e
                        | Inr v \<Rightarrow> Inr (setitem event2 ''source'' v))
                     else Inr event2)))
      | _ \<Rightarrow> Inl AttributeError)"

definition add_event :: "pylib \<Rightarrow> json \<Rightarrow> error + pystr" where
  "add_event lib json_data =
     (case add_event_dict lib json_data of
        Inl e \<Rightarrow> Inl e
      | Inr event \<Rightarrow> Inr (json_dumps lib (JObj event)))"

section \<open>The Worker: \<^verbatim>\<open>send_to_splunk\<close> and \<^verbatim>\<open>rabbit_callback\<close>\<close>

text \<open>The settings \<^verbatim>\<open>get_config\<close> reads, one field for each key of the dict.\<close>

record config =
  rabbitmq_user :: pystr
  rabbitmq_password :: pystr
  rabbitmq_server :: pystr
  rabbitmq_amqp_port :: pystr
  rabbitmq_http_port :: pystr
  rabbitmq_vhost :: pystr
  rabbitmq_exchange :: pystr
  splunk_url :: pystr
  splunk_token :: pystr
  threads :: int
  verbose :: bool
  debug :: bool

text \<open>
  What \<^verbatim>\<open>session.post\<close> does with the request is the endpoint's answer, an input of
  the model: either the call raises a \<^verbatim>\<open>RequestException\<close> (with its text), or it
  returns a reply with a status code and a reason.
\<close>

datatype post_outcome = RequestException pystr | Reply nat pystr

text \<open>
  The worker acts on the world in four ways, recorded in the order they happen: text
  written to standard output, the HTTP POST (url, value of the \<^verbatim>\<open>Authorization\<close>
  header, request body), \<^verbatim>\<open>channel.basic_ack\<close> with a delivery tag, and
  \<^verbatim>\<open>result_queue.put\<close> of a pair (process number, session count).
\<close>

datatype effect =
    Print pystr
  | Post pystr pystr pystr
  | Ack nat
  | Put nat nat

definition newline :: pystr where
  "newline = [CHR 0x0A]"

text \<open>
  \<^verbatim>\<open>Response.raise_for_status\<close> of \<^verbatim>\<open>requests\<close> raises \<^verbatim>\<open>HTTPError\<close> exactly for the
  status codes from 400 to 599, and \<^verbatim>\<open>Response.ok\<close> is true exactly when it would not
  raise.
\<close>

definition raises_for_status :: "nat \<Rightarrow> bool" where
  "raises_for_status status = (400 \<le> status \<and> status < 600)"

definition reply_ok :: "nat \<Rightarrow> bool" where
  "reply_ok status = (\<not> raises_for_status status)"

text \<open>Lines 146 to 152: the body is decompressed only under the tag \<^verbatim>\<open>'gzip'\<close>.\<close>

definition decode_body :: "pylib \<Rightarrow> pystr option \<Rightarrow> bytes \<Rightarrow> error + pystr" where
  "decode_body lib content_encoding body =
     (if content_encoding = Some ''gzip'' then
        (case gzip_decompress lib body of
           Inl e \<Rightarrow> Inl e
         | Inr json_str \<Rightarrow> utf8_decode lib json_str)
      else utf8_decode lib body)"

text \<open>Lines 159 to 161: a value that is not a list becomes a one-element list.\<close>

definition as_list :: "json \<Rightarrow> json list" where
  "as_list json_data = (case json_data of JList xs \<Rightarrow> xs | _ \<Rightarrow> [json_data])"

text \<open>
  \<^verbatim>\<open>map(self.add_event, json_data)\<close> is consumed by \<^verbatim>\<open>"".join\<close>, element by element:
  the first element on which \<^verbatim>\<open>add_event\<close> raises ends the call with that exception.
\<close>

fun event_list :: "pylib \<Rightarrow> json list \<Rightarrow> error + pystr list" where
  "event_list lib [] = Inr []"
| "event_list lib (x # xs) =
     (case add_event lib x of
        Inl e \<Rightarrow> Inl e
      | Inr s \<Rightarrow> (case event_list lib xs of Inl e \<Rightarrow> Inl e | Inr ss \<Rightarrow> Inr (s # ss)))"

text \<open>Line 166: \<^verbatim>\<open>"".join(event_list)\<close>.\<close>

definition event_data :: "pystr list \<Rightarrow> pystr" where
  "event_data evs = concat evs"

text \<open>
  \<^verbatim>\<open>send_to_splunk\<close> returns the effects it had, in order, and either the exception that
  ended it or the number of sessions, \<^verbatim>\<open>len(json_data)\<close>.
\<close>

definition send_to_splunk ::
  "pylib \<Rightarrow> config \<Rightarrow> pystr option \<Rightarrow> bytes \<Rightarrow> post_outcome \<Rightarrow> effect list \<times> (error + nat)" where
  "send_to_splunk lib cfg content_encoding body outcome =
     (case decode_body lib content_encoding body of
        Inl e \<Rightarrow> ([], Inl e)
      | Inr json_str \<Rightarrow>
          (let out1 =
                 (if debug cfg then [Print (newline @ ''Sending data: '' @ json_str @ newline)]
                  else [])
           in
           case json_loads lib json_str of
             Inl e \<Rightarrow> (out1, Inl e)
           | Inr loaded \<Rightarrow>
               (let json_data = as_list loaded in
                case event_list lib json_data of
                  Inl e \<Rightarrow> (out1, Inl e)
                | Inr evs \<Rightarrow>
                    (let out2 =
                           out1 @
                           [Post (splunk_url cfg) (''Splunk '' @ splunk_token cfg) (event_data evs)]
                     in
                     case outcome of
                       RequestException msg \<Rightarrow>
                         (out2 @
                          [Print (newline @ ''*** Splunk connectivity error...aborting ***'' @
                                  newline @ '' '' @ msg @ newline @ newline)],
                          Inl (SystemExit 1))
                     | Reply status reason \<Rightarrow>
                         if raises_for_status status then
                           (out2 @
                            [Print (newline @ ''*** Splunk connectivity error...aborting ***'' @
                                    newline @ '' '' @
                                    http_error_str lib status reason (splunk_url cfg) @
                                    newline @ newline)],
                            Inl (SystemExit 1))
                         else if \<not> reply_ok status then
                           (out2 @
                            [Print (newline @ ''*** Failure: '' @ reason @ '' ('' @
                                    str_nat status @ '')...aborting.'' @ newline @ newline)],
                            Inl (SystemExit 1))
                         else
                           (out2 @ (if verbose cfg then [Print ''.''] else []),
                            Inr (length json_data))))))"

text \<open>
  One message as the broker hands it to the callback: \<^verbatim>\<open>method.delivery_tag\<close>,
  \<^verbatim>\<open>properties.content_encoding\<close> (a \<^verbatim>\<open>str\<close> or \<^verbatim>\<open>None\<close>) and the body.
\<close>

record delivery =
  delivery_tag :: nat
  content_encoding :: "pystr option"
  body :: bytes

text \<open>
  \<^verbatim>\<open>rabbit_callback\<close>: an exception of \<^verbatim>\<open>send_to_splunk\<close> leaves the callback at once;
  otherwise the message is acknowledged and the count is put on the result queue.
\<close>

definition rabbit_callback ::
  "pylib \<Rightarrow> config \<Rightarrow> nat \<Rightarrow> delivery \<Rightarrow> post_outcome \<Rightarrow> effect list \<times> (error + unit)" where
  "rabbit_callback lib cfg process_num msg outcome =
     (case send_to_splunk lib cfg (content_encoding msg) (body msg) outcome of
        (out, Inl e) \<Rightarrow> (out, Inl e)
      | (out, Inr session_count) \<Rightarrow>
          (out @ [Ack (delivery_tag msg), Put process_num session_count], Inr ()))"

text \<open>
  \<^verbatim>\<open>channel.start_consuming()\<close> calls the callback for one delivery after another. An
  exception of the callback (also \<^verbatim>\<open>SystemExit\<close>) is caught nowhere in \<^verbatim>\<open>start\<close> or
  \<^verbatim>\<open>new_process\<close>, so it ends the worker's process: no later delivery is handled.
\<close>

fun start_consuming ::
  "pylib \<Rightarrow> config \<Rightarrow> nat \<Rightarrow> (delivery \<times> post_outcome) list \<Rightarrow> effect list \<times> (error + unit)" where
  "start_consuming lib cfg process_num [] = ([], Inr ())"
| "start_consuming lib cfg process_num ((msg, outcome) # rest) =
     (case rabbit_callback lib cfg process_num msg outcome of
        (out, Inl e) \<Rightarrow> (out, Inl e)
      | (out, Inr u) \<Rightarrow>
          (case start_consuming lib cfg process_num rest of
             (out', r) \<Rightarrow> (out @ out', r)))"

section \<open>The Aggregator: the loop of \<^verbatim>\<open>main\<close>\<close>

text \<open>
  The counters of \<^verbatim>\<open>main\<close> (lines 324 to 328). Python's integers are unbounded, so
  they are of type \<open>int\<close>.
\<close>

record counters =
  total_msg_count :: int
  last_total_msg_count :: int
  total_session_count :: int
  last_total_session_count :: int
  last_time :: int

text \<open>
  The line a report prints names the exchange, the total number of messages, the
  messages per second (a float, printed with one decimal) and \<^verbatim>\<open>int(sessions_per_second)\<close>.
  The report is kept as these four values.
\<close>

datatype report = Report pystr int pyfloat int

text \<open>
  One pass through the body of \<^verbatim>\<open>while True\<close> (lines 332 to 346): the pair taken from
  the result queue and the value \<^verbatim>\<open>time.time()\<close> returns are the inputs. A session count
  is the \<^verbatim>\<open>len\<close> of a list, a natural number. Both rates are true divisions of integers,
  and an exception of either leaves the loop (only \<^verbatim>\<open>KeyboardInterrupt\<close> is caught).
\<close>

definition aggregate ::
  "config \<Rightarrow> counters \<Rightarrow> nat \<times> nat \<Rightarrow> rat \<Rightarrow> error + report list \<times> counters" where
  "aggregate cfg c result clock =
     (case result of
        (process_num, session_count) \<Rightarrow>
          (let c1 = c\<lparr>total_msg_count := total_msg_count c + 1\<rparr>;
               c2 = c1\<lparr>total_session_count := total_session_count c1 + int session_count\<rparr>;
               now = trunc_rat clock;
               delta_time = now - last_time c2
           in
           if delta_time \<ge> 5 then
             (case py_truediv (total_msg_count c2 - last_total_msg_count c2) delta_time of
                Inl e \<Rightarrow> Inl e
              | Inr msg_per_second \<Rightarrow>
                  (case py_truediv (total_session_count c2 - last_total_session_count c2)
                          delta_time of
                     Inl e \<Rightarrow> Inl e
                   | Inr sessions_per_second \<Rightarrow>
                       (case int_of_float sessions_per_second of
                          Inl e \<Rightarrow> Inl e
                        | Inr sessions \<Rightarrow>
                            Inr ([Report (rabbitmq_exchange cfg) (total_msg_count c2)
                                    msg_per_second sessions],
                                 c2\<lparr>last_time := now,
                                    last_total_msg_count := total_msg_count c2,
                                    last_total_session_count := total_session_count c2\<rparr>))))
           else Inr ([], c2)))"

text \<open>Lines 324 to 328: the counters before the loop, \<open>clock\<close> being \<^verbatim>\<open>time.time()\<close>.\<close>

definition initial_counters :: "rat \<Rightarrow> counters" where
  "initial_counters clock =
     \<lparr>total_msg_count = 0, last_total_msg_count = 0, total_session_count = 0,
      last_total_session_count = 0, last_time = trunc_rat clock\<rparr>"

text \<open>
  The loop never ends by itself; what it has printed and the counters it holds after any
  finite sequence of results (each with the clock read after it) is this fold, which
  stops at the first exception.
\<close>

fun aggregate_all ::
  "config \<Rightarrow> counters \<Rightarrow> ((nat \<times> nat) \<times> rat) list \<Rightarrow> error + report list \<times> counters" where
  "aggregate_all cfg c [] = Inr ([], c)"
| "aggregate_all cfg c ((result, clock) # rest) =
     (case aggregate cfg c result clock of
        Inl e \<Rightarrow> Inl e
      | Inr (out, c') \<Rightarrow>
          (case aggregate_all cfg c' rest of
             Inl e \<Rightarrow> Inl e
           | Inr (out', c'') \<Rightarrow> Inr (out @ out', c'')))"

section \<open>The Topology Initializer: \<^verbatim>\<open>add_vhost\<close> and the declarations of \<^verbatim>\<open>start\<close>\<close>

text \<open>
  Modelled from the spec: the broker. The program only sends it requests; what the
  broker does with them is not in the sources. Following sections 4.1 and 6 and the
  glossary of the specification, the broker holds virtual hosts, exchanges (each durable
  or not), queues and bindings; a request "ensures" that the thing it names exists
  (idempotent declaration semantics), and the flow-control limit belongs to the channel
  of one consumer. A broker that cannot be reached refuses every connection.
\<close>

record broker =
  refusing :: bool
  vhosts :: "pystr list"
  exchanges :: "((pystr \<times> pystr) \<times> bool) list"
  queues :: "(pystr \<times> pystr) list"
  bindings :: "(pystr \<times> pystr \<times> pystr \<times> pystr) list"

record channel =
  channel_vhost :: pystr
  prefetch_count :: nat

datatype broker_error =
  ConnectionRefusedError | ConnectionError | PreconditionFailed | NotFound | Exit int

text \<open>
  Modelled from the spec: the administrative call that ensures a virtual host exists.
  It answers 201 when it creates the host and 204 when the host is there already; there is
  no answer (the request raises) when the connection is refused.
\<close>

definition broker_put_vhost :: "broker \<Rightarrow> pystr \<Rightarrow> (nat \<times> broker) option" where
  "broker_put_vhost b v =
     (if refusing b then None
      else if v \<in> set (vhosts b) then Some (204, b)
      else Some (201, b\<lparr>vhosts := vhosts b @ [v]\<rparr>))"

text \<open>
  Modelled from the spec: opening a connection and a channel on a virtual host, which
  must exist.
\<close>

definition broker_connect :: "broker \<Rightarrow> pystr \<Rightarrow> broker_error + channel" where
  "broker_connect b v =
     (if refusing b then Inl ConnectionRefusedError
      else if v \<in> set (vhosts b) then Inr \<lparr>channel_vhost = v, prefetch_count = 0\<rparr>
      else Inl ConnectionError)"

text \<open>
  Modelled from the spec: declaring an exchange ensures that it exists; declaring it
  again with the same durability changes nothing, and with another durability is refused.
\<close>

definition broker_exchange_declare ::
  "broker \<Rightarrow> channel \<Rightarrow> pystr \<Rightarrow> bool \<Rightarrow> broker_error + broker" where
  "broker_exchange_declare b ch exchange durable =
     (case map_of (exchanges b) (channel_vhost ch, exchange) of
        None \<Rightarrow> Inr (b\<lparr>exchanges := exchanges b @ [((channel_vhost ch, exchange), durable)]\<rparr>)
      | Some d \<Rightarrow> if d = durable then Inr b else Inl PreconditionFailed)"

text \<open>Modelled from the spec: declaring a queue ensures that it exists.\<close>

definition broker_queue_declare :: "broker \<Rightarrow> channel \<Rightarrow> pystr \<Rightarrow> broker_error + broker" where
  "broker_queue_declare b ch queue =
     (if (channel_vhost ch, queue) \<in> set (queues b) then Inr b
      else Inr (b\<lparr>queues := queues b @ [(channel_vhost ch, queue)]\<rparr>))"

text \<open>
  Modelled from the spec: binding an existing queue to an existing exchange ensures that
  the binding exists.
\<close>

definition broker_queue_bind ::
  "broker \<Rightarrow> channel \<Rightarrow> pystr \<Rightarrow> pystr \<Rightarrow> pystr \<Rightarrow> broker_error + broker" where
  "broker_queue_bind b ch queue exchange routing_key =
     (if (channel_vhost ch, queue) \<notin> set (queues b) \<or>
         map_of (exchanges b) (channel_vhost ch, exchange) = None
      then Inl NotFound
      else if (channel_vhost ch, queue, exchange, routing_key) \<in> set (bindings b) then Inr b
      else Inr (b\<lparr>bindings := bindings b @ [(channel_vhost ch, queue, exchange, routing_key)]\<rparr>))"

text \<open>
  \<^verbatim>\<open>add_vhost\<close> (lines 224 to 247): the PUT request for the configured virtual host;
  an exception of the request and a reply that is not \<^verbatim>\<open>ok\<close> both end the program with
  \<^verbatim>\<open>sys.exit(1)\<close>.
\<close>

definition add_vhost :: "config \<Rightarrow> broker \<Rightarrow> broker_error + broker" where
  "add_vhost cfg b =
     (case broker_put_vhost b (rabbitmq_vhost cfg) of
        None \<Rightarrow> Inl (Exit 1)
      | Some (status, b') \<Rightarrow> if \<not> reply_ok status then Inl (Exit 1) else Inr b')"

text \<open>
  The declarations of \<^verbatim>\<open>start\<close> (lines 76 to 104), in their order: connection and
  channel (a refused connection ends the process with \<^verbatim>\<open>sys.exit(1)\<close>, any other
  exception leaves \<^verbatim>\<open>start\<close> as it is), the durable exchange, the queue named after the
  exchange, the binding with the empty routing key, and the prefetch count 10.
\<close>

definition start_declarations :: "config \<Rightarrow> broker \<Rightarrow> broker_error + broker \<times> channel" where
  "start_declarations cfg b =
     (case broker_connect b (rabbitmq_vhost cfg) of
        Inl e \<Rightarrow> (if e = ConnectionRefusedError then Inl (Exit 1) else Inl e)
      | Inr ch \<Rightarrow>
          (let exchange = rabbitmq_exchange cfg in
           case broker_exchange_declare b ch exchange True of
             Inl e \<Rightarrow> Inl e
           | Inr b1 \<Rightarrow>
               (let queue = exchange @ ''_q'' in
                case broker_queue_declare b1 ch queue of
                  Inl e \<Rightarrow> Inl e
                | Inr b2 \<Rightarrow>
                    (case broker_queue_bind b2 ch queue exchange [] of
                       Inl e \<Rightarrow> Inl e
                     | Inr b3 \<Rightarrow> Inr (b3, ch\<lparr>prefetch_count := 10\<rparr>)))))"

text \<open>One invocation of the initializer: \<^verbatim>\<open>add_vhost\<close>, then the declarations.\<close>

definition topology_initializer :: "config \<Rightarrow> broker \<Rightarrow> broker_error + broker \<times> channel" where
  "topology_initializer cfg b =
     (case add_vhost cfg b of
        Inl e \<Rightarrow> Inl e
      | Inr b' \<Rightarrow> start_declarations cfg b')"

section \<open>A library instance for concrete runs\<close>

text \<open>
  To run the model on concrete messages the library functions need values. This instance
  gives them on a handful of inputs, where it returns what CPython returns (ASCII bytes
  decode to themselves; \<^verbatim>\<open>json.dumps\<close> separates with \<^verbatim>\<open>", "\<close> and \<^verbatim>\<open>": "\<close>); on every
  other input it reports failure. \<open>gzip_of_three\<close> is the gzip stream of the twelve bytes
  \<^verbatim>\<open>[{}, {}, {}]\<close>.
\<close>

definition gzip_of_three :: bytes where
  "gzip_of_three =
     map char_of
       [31, 139, 8, 0, 0, 0, 0, 0, 2, 3, 139, 174, 174, 213, 81, 128, 224, 88, 0, 165, 170,
        4, 95, 12, 0, 0, 0 :: nat]"

definition example_lib :: pylib where
  \<open>example_lib =
     \<lparr>gzip_decompress =
        (\<lambda>b. if b = gzip_of_three then Inr ''[{}, {}, {}]'' else Inl GzipError),
      utf8_decode =
        (\<lambda>b. if list_all (\<lambda>c. (of_char c :: nat) < 128) b then Inr b
             else Inl UnicodeDecodeError),
      json_loads =
        (\<lambda>s. if s = ''{}'' then Inr (JObj [])
             else if s = ''[{}, {}, {}]'' then Inr (JList [JObj [], JObj [], JObj []])
             else if s = ''[1]'' then Inr (JList [JInt 1])
             else Inl JSONDecodeError),
      json_dumps =
        (\<lambda>j. if j = JObj [(''event'', JObj [])] then ''{"event": {}}'' else []),
      int_of_str = (\<lambda>s. if s = ''1500000'' then Some 1500000 else None),
      http_error_str =
        (\<lambda>status reason url.
           str_nat status @
           (if status < 500 then '' Client Error: '' else '' Server Error: '') @
           reason @ '' for url: '' @ url)\<rparr>\<close>

definition example_config :: config where
  "example_config =
     \<lparr>rabbitmq_user = ''guest'', rabbitmq_password = ''guest'',
      rabbitmq_server = ''localhost'', rabbitmq_amqp_port = ''5672'',
      rabbitmq_http_port = ''15672'', rabbitmq_vhost = ''dx'', rabbitmq_exchange = ''alerts'',
      splunk_url = ''https://splunk:8088/services/collector'', splunk_token = ''token'',
      threads = 1, verbose = False, debug = False\<rparr>"

lemma pow2_powi: "pow2 e = 2 powi e"
  by (simp add: pow2_def power_int_def power_one_over)

lemma pow2_pos: "0 < pow2 e"
  by (simp add: pow2_powi)

lemma pow2_add: "pow2 (a + b) = pow2 a * pow2 b"
  by (simp add: pow2_powi power_int_add)

lemma pow2_less: "a < b \<Longrightarrow> pow2 a < pow2 b"
  by (simp add: pow2_powi power_int_strict_increasing)

lemma pow2_le: "a \<le> b \<Longrightarrow> pow2 a \<le> pow2 b"
  by (simp add: pow2_powi power_int_increasing)

lemma pow2_int: "pow2 (int n) = 2 ^ n"
  by (simp add: pow2_def)

lemma pow2_diff: "pow2 (int a - int b) = 2 ^ a / 2 ^ b"
proof -
  have "pow2 (int a - int b) * pow2 (int b) = pow2 (int a)"
    by (simp add: pow2_add [symmetric])
  then have "pow2 (int a - int b) * 2 ^ b = 2 ^ a"
    by (simp only: pow2_int)
  then show ?thesis
    by (simp add: eq_divide_eq)
qed

lemma bit_length_bounds:
  "0 < n \<Longrightarrow> 2 ^ (bit_length n - 1) \<le> n \<and> n < 2 ^ bit_length n"
proof (induction n rule: bit_length.induct)
  case (1 n)
  show ?case
  proof (cases "n div 2 = 0")
    case True
    with "1.prems" have "n = 1" by (cases n) auto
    then show ?thesis by (simp add: bit_length.simps)
  next
    case False
    then have pos: "0 < n div 2" by simp
    from "1.IH" [OF _ pos] "1.prems"
    have ih: "2 ^ (bit_length (n div 2) - 1) \<le> n div 2" "n div 2 < 2 ^ bit_length (n div 2)"
      by auto
    have b: "bit_length n = Suc (bit_length (n div 2))"
      using "1.prems" by (subst bit_length.simps) simp
    have p: "0 < bit_length (n div 2)"
      using pos by (subst bit_length.simps) simp
    have "2 ^ (bit_length n - 1) = 2 * 2 ^ (bit_length (n div 2) - 1)"
      using p by (simp add: b power_eq_if)
    also have "\<dots> \<le> 2 * (n div 2)" using ih(1) by simp
    also have "\<dots> \<le> n" by simp
    finally have lo: "2 ^ (bit_length n - 1) \<le> n" .
    have "n < 2 * (n div 2) + 2" by presburger
    also have "\<dots> \<le> 2 * 2 ^ bit_length (n div 2)" using ih(2) by simp
    finally have "n < 2 ^ bit_length n" by (simp add: b)
    with lo show ?thesis by blast
  qed
qed

lemma rat_of_int_bit_bounds:
  assumes "0 < a"
  shows "(2::rat) ^ (bit_length (nat a) - 1) \<le> rat_of_int a \<and>
         rat_of_int a < 2 ^ bit_length (nat a)"
proof -
  from bit_length_bounds [of "nat a"] assms
  have lo: "2 ^ (bit_length (nat a) - 1) \<le> nat a" and hi: "nat a < 2 ^ bit_length (nat a)"
    by simp_all
  from lo assms have "int (2 ^ (bit_length (nat a) - 1)) \<le> a"
    by (simp only: le_nat_iff [OF less_imp_le])
  then have "rat_of_int (int (2 ^ (bit_length (nat a) - 1))) \<le> rat_of_int a"
    by (simp only: of_int_le_iff)
  then have one: "(2::rat) ^ (bit_length (nat a) - 1) \<le> rat_of_int a"
    by simp
  from hi assms have "a < int (2 ^ bit_length (nat a))"
    by (simp only: nat_less_iff [OF less_imp_le])
  then have "rat_of_int a < rat_of_int (int (2 ^ bit_length (nat a)))"
    by (simp only: of_int_less_iff)
  then have "rat_of_int a < 2 ^ bit_length (nat a)"
    by simp
  with one show ?thesis by blast
qed

lemma floor_log2_bounds:
  assumes "0 < q"
  shows "pow2 (floor_log2 q) \<le> q \<and> q < pow2 (floor_log2 q + 1)"
proof -
  obtain a b where ab: "quotient_of q = (a, b)" by (cases "quotient_of q")
  have b: "0 < b" using ab by (rule quotient_of_denom_pos)
  have q: "q = rat_of_int a / rat_of_int b" using ab by (rule quotient_of_div)
  have a: "0 < a"
    using assms b unfolding q by (simp add: zero_less_divide_iff)
  define la where "la = bit_length (nat a)"
  define lb where "lb = bit_length (nat b)"
  have la: "0 < la" using a by (subst la_def, subst bit_length.simps) simp
  have lb: "0 < lb" using b by (subst lb_def, subst bit_length.simps) simp
  have ra: "(2::rat) ^ (la - 1) \<le> rat_of_int a" "rat_of_int a < 2 ^ la"
    using rat_of_int_bit_bounds [OF a] by (simp_all add: la_def)
  have rb: "(2::rat) ^ (lb - 1) \<le> rat_of_int b" "rat_of_int b < 2 ^ lb"
    using rat_of_int_bit_bounds [OF b] by (simp_all add: lb_def)
  define d where "d = int la - int lb"
  have rbpos: "0 < rat_of_int b" using b by simp
  have lower: "pow2 (d - 1) < q"
  proof -
    have "d - 1 = int (la - 1) - int lb"
      using la by (simp add: d_def of_nat_diff)
    then have "pow2 (d - 1) = 2 ^ (la - 1) / 2 ^ lb"
      by (simp only: pow2_diff)
    also have "\<dots> \<le> rat_of_int a / 2 ^ lb"
      using ra(1) by (simp add: divide_right_mono)
    also have "\<dots> < rat_of_int a / rat_of_int b"
      using rb(2) rbpos a by (simp add: divide_strict_left_mono)
    finally show ?thesis by (simp add: q)
  qed
  have upper: "q < pow2 (d + 1)"
  proof -
    have "q < 2 ^ la / rat_of_int b"
      unfolding q using ra(2) rbpos by (simp add: divide_strict_right_mono)
    also have "\<dots> \<le> 2 ^ la / 2 ^ (lb - 1)"
      using rbpos by (intro divide_left_mono rb(1) mult_pos_pos) simp_all
    also have "\<dots> = pow2 (d + 1)"
    proof -
      have "d + 1 = int la - int (lb - 1)"
        using lb by (simp add: d_def of_nat_diff)
      then show ?thesis by (simp only: pow2_diff)
    qed
    finally show ?thesis .
  qed
  have f: "floor_log2 q = (if pow2 d \<le> q then d else d - 1)"
    by (simp add: floor_log2_def ab Let_def d_def la_def lb_def)
  show ?thesis
  proof (cases "pow2 d \<le> q")
    case True
    then show ?thesis using upper by (simp add: f)
  next
    case False
    then show ?thesis using lower by (simp add: f)
  qed
qed

lemma floor_log2_unique:
  assumes "0 < q" and "pow2 e \<le> q" and "q < pow2 (e + 1)"
  shows "floor_log2 q = e"
proof -
  from floor_log2_bounds [OF assms(1)]
  have lo: "pow2 (floor_log2 q) \<le> q" and hi: "q < pow2 (floor_log2 q + 1)" by blast+
  have "\<not> e + 1 \<le> floor_log2 q"
  proof
    assume "e + 1 \<le> floor_log2 q"
    then have "pow2 (e + 1) \<le> pow2 (floor_log2 q)" by (rule pow2_le)
    with lo assms(3) show False by simp
  qed
  moreover have "\<not> floor_log2 q + 1 \<le> e"
  proof
    assume "floor_log2 q + 1 \<le> e"
    then have "pow2 (floor_log2 q + 1) \<le> pow2 e" by (rule pow2_le)
    with hi assms(2) show False by simp
  qed
  ultimately show ?thesis by simp
qed

lemma round_half_even_unique:
  assumes "rat_of_int m - 1 / 2 < x" and "x < rat_of_int m + 1 / 2"
  shows "round_half_even x = m"
proof -
  have "\<lfloor>x\<rfloor> = m \<or> \<lfloor>x\<rfloor> = m - 1"
  proof -
    have "rat_of_int (m - 1) \<le> x" using assms(1) by simp
    then have "m - 1 \<le> \<lfloor>x\<rfloor>" by (simp only: le_floor_iff)
    moreover have "x < rat_of_int (m + 1)" using assms(2) by simp
    then have "\<lfloor>x\<rfloor> < m + 1" by (simp only: floor_less_iff)
    ultimately show ?thesis by linarith
  qed
  then show ?thesis
  proof
    assume f: "\<lfloor>x\<rfloor> = m"
    then have "x - rat_of_int \<lfloor>x\<rfloor> < 1 / 2" using assms(2) by simp
    then show ?thesis by (simp add: round_half_even_def Let_def f)
  next
    assume f: "\<lfloor>x\<rfloor> = m - 1"
    then have "1 / 2 < x - rat_of_int \<lfloor>x\<rfloor>" using assms(1) by simp
    then show ?thesis by (simp add: round_half_even_def Let_def f)
  qed
qed

lemma round_double_unique:
  assumes "0 < q" and "pow2 e \<le> q" and "q < pow2 (e + 1)"
    and "rat_of_int m - 1 / 2 < q / pow2 (max (e - 52) (- 1074))"
    and "q / pow2 (max (e - 52) (- 1074)) < rat_of_int m + 1 / 2"
  shows "round_double q = rat_of_int m * pow2 (max (e - 52) (- 1074))"
proof -
  have e: "floor_log2 q = e"
    using assms(1-3) by (rule floor_log2_unique)
  have m: "round_half_even (q / pow2 (max (e - 52) (- 1074))) = m"
    using assms(4,5) by (rule round_half_even_unique)
  have a: "\<bar>q\<bar> = q" "sgn q = 1" "q \<noteq> 0"
    using assms(1) by simp_all
  show ?thesis
    by (simp add: round_double_def Let_def a e m)
qed

lemma round_double_1500: "round_double 1500 = 1500"
  using round_double_unique [of 1500 10 "1500 * 2 ^ 42"] by (simp add: pow2_def)

lemma round_double_5: "round_double 5 = 5"
  using round_double_unique [of 5 2 "5 * 2 ^ 50"] by (simp add: pow2_def)

lemma round_double_sixth: "round_double (1 / 6) = 6004799503160661 / 2 ^ 55"
  using round_double_unique [of "1 / 6" "- 3" 6004799503160661] by (simp add: pow2_def)

lemma round_double_thousandth: "round_double (1 / 1000) = 1152921504606847 / 2 ^ 60"
  using round_double_unique [of "1 / 1000" "- 10" 4611686018427388] by (simp add: pow2_def)

lemma round_double_odd: "round_double (9007199254740993 / 1000) = 1152921504606847 / 128"
  using round_double_unique [of "9007199254740993 / 1000" 43 4611686018427388] by (simp add: pow2_def)

lemma round_double_fraction: "round_double (3000001 / 2000) = 824633995709907 / 2 ^ 39"
  using round_double_unique [of "3000001 / 2000" 10 6597071965679256] by (simp add: pow2_def)

lemma py_truediv_1500000: "py_truediv 1500000 1000 = Inr (Fin 1500)"
  by (simp add: py_truediv_def round_double_1500)

section \<open>Facts about the Transformer and the Worker\<close>

subsection \<open>Dictionaries and the batch\<close>

lemma has_key_map_of: "has_key d k \<longleftrightarrow> map_of d k \<noteq> None"
  by (simp add: has_key_def map_of_eq_None_iff)

lemma event_list_all2:
  "event_list lib xs = Inr evs \<longleftrightarrow> list_all2 (\<lambda>p s. add_event lib p = Inr s) xs evs"
proof (induction xs arbitrary: evs)
  case Nil
  show ?case by auto
next
  case (Cons x xs)
  show ?case
    by (cases evs) (auto simp: Cons.IH[symmetric] split: sum.splits)
qed

lemma event_list_length: "event_list lib xs = Inr evs \<Longrightarrow> length evs = length xs"
  by (simp add: event_list_all2 list_all2_lengthD)

lemma event_list_total:
  "(\<forall>p \<in> set xs. \<exists>s. add_event lib p = Inr s) \<Longrightarrow> \<exists>evs. event_list lib xs = Inr evs"
  by (induction xs) auto

lemma event_list_fails:
  "p \<in> set xs \<Longrightarrow> add_event lib p = Inl e \<Longrightarrow> \<exists>e'. event_list lib xs = Inl e'"
  by (induction xs) (auto split: sum.splits)

lemma send_to_splunk_Post:
  assumes "Post url auth data \<in> set (fst (send_to_splunk lib cfg enc raw outcome))"
  shows "\<exists>json_str loaded evs.
           decode_body lib enc raw = Inr json_str \<and> json_loads lib json_str = Inr loaded \<and>
           event_list lib (as_list loaded) = Inr evs \<and>
           url = splunk_url cfg \<and> auth = ''Splunk '' @ splunk_token cfg \<and> data = event_data evs"
  using assms
  by (auto simp: send_to_splunk_def Let_def split: sum.splits post_outcome.splits if_splits)

lemma send_to_splunk_Inr:
  "snd (send_to_splunk lib cfg enc raw outcome) = Inr n \<longleftrightarrow>
     (\<exists>json_str loaded evs status reason.
        decode_body lib enc raw = Inr json_str \<and> json_loads lib json_str = Inr loaded \<and>
        event_list lib (as_list loaded) = Inr evs \<and> outcome = Reply status reason \<and>
        \<not> raises_for_status status \<and> n = length (as_list loaded))"
  by (auto simp: send_to_splunk_def Let_def reply_ok_def split: sum.splits post_outcome.splits if_splits)

lemma send_to_splunk_no_Ack: "Ack t \<notin> set (fst (send_to_splunk lib cfg enc raw outcome))"
  by (auto simp: send_to_splunk_def Let_def split: sum.splits post_outcome.splits if_splits)

text \<open>The definitions a concrete run unfolds.\<close>

lemmas run_defs =
  send_to_splunk_def rabbit_callback_def decode_body_def as_list_def add_event_def
  add_event_dict_def has_key_def getitem_def setitem_def event_data_def
  raises_for_status_def reply_ok_def example_lib_def example_config_def

subsection \<open>The wire form of a batch\<close>

text \<open>
  Claim C2. Whenever \<^verbatim>\<open>send_to_splunk\<close> posts a request, its body is the concatenation,
  with no separator, of the serializations \<^verbatim>\<open>add_event\<close> returns for the elements of the
  message, one after the other in their order; \<^verbatim>\<open>"".join\<close> puts nothing between them.
  In particular the two serialized records \<^verbatim>\<open>{"event":{"a":1}}\<close> and
  \<^verbatim>\<open>{"event":{"b":2}}\<close> give exactly \<^verbatim>\<open>{"event":{"a":1}}{"event":{"b":2}}\<close>.
\<close>

theorem wire_form_is_concatenation:
  \<open>(Post url auth data \<in> set (fst (send_to_splunk lib cfg enc raw outcome)) \<longrightarrow>
      (\<exists>json_str loaded evs.
         decode_body lib enc raw = Inr json_str \<and> json_loads lib json_str = Inr loaded \<and>
         list_all2 (\<lambda>p s. add_event lib p = Inr s) (as_list loaded) evs \<and>
         data = concat evs)) \<and>
    event_data evs' = concat evs' \<and>
    event_data [''{"event":{"a":1}}'', ''{"event":{"b":2}}''] =
      ''{"event":{"a":1}}{"event":{"b":2}}''\<close>
proof (intro conjI impI)
  assume "Post url auth data \<in> set (fst (send_to_splunk lib cfg enc raw outcome))"
  from send_to_splunk_Post [OF this]
  show "\<exists>json_str loaded evs.
         decode_body lib enc raw = Inr json_str \<and> json_loads lib json_str = Inr loaded \<and>
         list_all2 (\<lambda>p s. add_event lib p = Inr s) (as_list loaded) evs \<and>
         data = concat evs"
    unfolding event_list_all2 event_data_def by blast
qed (simp_all add: event_data_def)

theorem wire_form_is_concatenation_witness:
  \<open>Post (splunk_url example_config) ''Splunk token'' ''{"event": {}}{"event": {}}{"event": {}}''
      \<in> set (fst (send_to_splunk example_lib example_config None ''[{}, {}, {}]'' (Reply 200 ''OK''))) \<and>
    (\<exists>json_str loaded evs.
       decode_body example_lib None ''[{}, {}, {}]'' = Inr json_str \<and>
       json_loads example_lib json_str = Inr loaded \<and>
       list_all2 (\<lambda>p s. add_event example_lib p = Inr s) (as_list loaded) evs \<and>
       ''{"event": {}}{"event": {}}{"event": {}}'' = concat evs)\<close>
proof -
  have h: \<open>Post (splunk_url example_config) ''Splunk token'' ''{"event": {}}{"event": {}}{"event": {}}''
      \<in> set (fst (send_to_splunk example_lib example_config None ''[{}, {}, {}]'' (Reply 200 ''OK'')))\<close>
    by (simp add: run_defs)
  from wire_form_is_concatenation [THEN conjunct1, rule_format, OF h] h
  show ?thesis by blast
qed

subsection \<open>Content encodings\<close>

text \<open>
  Claim C9. The body is decompressed exactly under the tag \<^verbatim>\<open>'gzip'\<close>. Under every other
  tag, \<^verbatim>\<open>None\<close> and unknown names included, the decoded text is the UTF-8 decoding of
  the body itself, whatever \<^verbatim>\<open>gzip.decompress\<close> would do (it is not called), and the
  message is handled exactly as one with no tag: no tag is rejected as unsupported. Under
  \<^verbatim>\<open>'gzip'\<close> the decoded text is the UTF-8 decoding of the decompressed body.
\<close>

theorem gzip_only_under_gzip_tag:
  "(enc \<noteq> Some ''gzip'' \<longrightarrow>
      decode_body (lib\<lparr>gzip_decompress := g\<rparr>) enc raw = utf8_decode lib raw \<and>
      send_to_splunk lib cfg enc raw outcome = send_to_splunk lib cfg None raw outcome) \<and>
   decode_body lib (Some ''gzip'') raw =
     (case gzip_decompress lib raw of Inl e \<Rightarrow> Inl e | Inr plain \<Rightarrow> utf8_decode lib plain)"
  by (simp add: decode_body_def send_to_splunk_def)

theorem gzip_only_under_gzip_tag_witness:
  "Some ''deflate'' \<noteq> Some ''gzip'' \<and>
   decode_body (example_lib\<lparr>gzip_decompress := (\<lambda>b. Inl GzipError)\<rparr>) (Some ''deflate'') ''{}'' =
     Inr ''{}'' \<and>
   send_to_splunk example_lib example_config (Some ''deflate'') ''{}'' (Reply 200 ''OK'') =
     send_to_splunk example_lib example_config None ''{}'' (Reply 200 ''OK'')"
proof -
  have h: "Some ''deflate'' \<noteq> Some ''gzip''" by simp
  have u: "utf8_decode example_lib ''{}'' = Inr ''{}''" by (simp add: example_lib_def)
  from gzip_only_under_gzip_tag [where lib = example_lib and g = "\<lambda>b. Inl GzipError"
      and raw = "''{}''" and cfg = example_config and outcome = "Reply 200 ''OK''"
      and enc = "Some ''deflate''", THEN conjunct1, rule_format, OF h] h u
  show ?thesis by simp
qed

text \<open>
  Claim C6. If a message tagged \<^verbatim>\<open>'gzip'\<close> decompresses to the bytes that a message tagged
  \<^verbatim>\<open>'identity'\<close> carries, the two decode to the same text (or fail alike), and
  \<^verbatim>\<open>send_to_splunk\<close> and the callback do the same with both: the same request body, the
  same count, the same effects.
\<close>

theorem gzip_and_identity_agree:
  "gzip_decompress lib zipped = Inr plain \<Longrightarrow>
     decode_body lib (Some ''gzip'') zipped = decode_body lib (Some ''identity'') plain \<and>
     send_to_splunk lib cfg (Some ''gzip'') zipped outcome =
       send_to_splunk lib cfg (Some ''identity'') plain outcome \<and>
     rabbit_callback lib cfg process_num
         \<lparr>delivery_tag = t, content_encoding = Some ''gzip'', body = zipped\<rparr> outcome =
       rabbit_callback lib cfg process_num
         \<lparr>delivery_tag = t, content_encoding = Some ''identity'', body = plain\<rparr> outcome"
  by (simp add: decode_body_def send_to_splunk_def rabbit_callback_def)

theorem gzip_and_identity_agree_witness:
  \<open>gzip_decompress example_lib gzip_of_three = Inr ''[{}, {}, {}]'' \<and>
   decode_body example_lib (Some ''gzip'') gzip_of_three = Inr ''[{}, {}, {}]'' \<and>
   decode_body example_lib (Some ''identity'') ''[{}, {}, {}]'' = Inr ''[{}, {}, {}]'' \<and>
   send_to_splunk example_lib example_config (Some ''gzip'') gzip_of_three (Reply 200 ''OK'') =
     ([Post (splunk_url example_config) ''Splunk token''
         ''{"event": {}}{"event": {}}{"event": {}}''], Inr 3)\<close>
proof -
  have h: "gzip_decompress example_lib gzip_of_three = Inr ''[{}, {}, {}]''"
    by (simp add: example_lib_def)
  have i: "decode_body example_lib (Some ''identity'') ''[{}, {}, {}]'' = Inr ''[{}, {}, {}]''"
    by (simp add: decode_body_def example_lib_def)
  have s: \<open>send_to_splunk example_lib example_config (Some ''identity'') ''[{}, {}, {}]'' (Reply 200 ''OK'') =
     ([Post (splunk_url example_config) ''Splunk token''
         ''{"event": {}}{"event": {}}{"event": {}}''], Inr 3)\<close>
    by (simp add: run_defs)
  from gzip_and_identity_agree [OF h, of example_config "Reply 200 ''OK''"] h i s
  show ?thesis by simp
qed

subsection \<open>Payloads that are not objects\<close>

lemma add_event_not_object: "(\<forall>d. p \<noteq> JObj d) \<Longrightarrow> add_event lib p = Inl AttributeError"
  by (cases p) (simp_all add: add_event_def add_event_dict_def)

lemma send_to_splunk_batch_fails:
  assumes "event_list lib (as_list loaded) = Inl e"
    and "decode_body lib enc raw = Inr json_str" and "json_loads lib json_str = Inr loaded"
  shows "send_to_splunk lib cfg enc raw outcome =
           (if debug cfg then [Print (newline @ ''Sending data: '' @ json_str @ newline)] else [], Inl e)"
  using assms by (simp add: send_to_splunk_def)

text \<open>
  Claim C10. \<^verbatim>\<open>add_event\<close> is defined on objects only: on any other JSON value it raises
  \<^verbatim>\<open>AttributeError\<close> instead of returning a record with only the \<^verbatim>\<open>event\<close> field. A
  message whose body decodes and parses but holds such an element therefore ends the
  callback with an exception, although decoding and parsing succeeded: nothing is posted
  and nothing is acknowledged. A body that is a JSON array holding the number 1 is such a
  message.
\<close>

theorem non_object_payload_is_fatal:
  assumes "\<forall>d. p \<noteq> JObj d"
  shows "add_event lib p = Inl AttributeError \<and>
         (decode_body lib (content_encoding msg) (body msg) = Inr json_str \<and>
          json_loads lib json_str = Inr loaded \<and> p \<in> set (as_list loaded) \<longrightarrow>
            (\<exists>e. snd (rabbit_callback lib cfg process_num msg outcome) = Inl e) \<and>
            (\<forall>url auth data. Post url auth data \<notin> set (fst (rabbit_callback lib cfg process_num msg outcome))) \<and>
            (\<forall>t. Ack t \<notin> set (fst (rabbit_callback lib cfg process_num msg outcome))))"
proof (intro conjI impI)
  show a: "add_event lib p = Inl AttributeError"
    using assms by (rule add_event_not_object)
  assume h: "decode_body lib (content_encoding msg) (body msg) = Inr json_str \<and>
          json_loads lib json_str = Inr loaded \<and> p \<in> set (as_list loaded)"
  then obtain e where e: "event_list lib (as_list loaded) = Inl e"
    using event_list_fails [OF _ a] by blast
  have s: "send_to_splunk lib cfg (content_encoding msg) (body msg) outcome =
           (if debug cfg then [Print (newline @ ''Sending data: '' @ json_str @ newline)] else [], Inl e)"
    using send_to_splunk_batch_fails [OF e] h by blast
  show "\<exists>e. snd (rabbit_callback lib cfg process_num msg outcome) = Inl e"
    by (simp add: rabbit_callback_def s)
  show "\<forall>url auth data. Post url auth data \<notin> set (fst (rabbit_callback lib cfg process_num msg outcome))"
    by (simp add: rabbit_callback_def s)
  show "\<forall>t. Ack t \<notin> set (fst (rabbit_callback lib cfg process_num msg outcome))"
    by (simp add: rabbit_callback_def s)
qed

theorem non_object_payload_is_fatal_witness:
  "(\<forall>d. JInt 1 \<noteq> JObj d) \<and>
   json_loads example_lib ''[1]'' = Inr (JList [JInt 1]) \<and>
   add_event example_lib (JInt 1) = Inl AttributeError \<and>
   rabbit_callback example_lib example_config 0
     \<lparr>delivery_tag = 7, content_encoding = Some ''identity'', body = ''[1]''\<rparr> (Reply 200 ''OK'') =
     ([], Inl AttributeError)"
proof -
  have h: "\<forall>d. JInt 1 \<noteq> JObj d" by simp
  have l: "json_loads example_lib ''[1]'' = Inr (JList [JInt 1])" by (simp add: example_lib_def)
  have r: "rabbit_callback example_lib example_config 0
     \<lparr>delivery_tag = 7, content_encoding = Some ''identity'', body = ''[1]''\<rparr> (Reply 200 ''OK'') =
     ([], Inl AttributeError)"
    by (simp add: run_defs)
  from non_object_payload_is_fatal [OF h, THEN conjunct1, of example_lib] h l r
  show ?thesis by simp
qed

subsection \<open>The record \<^verbatim>\<open>add_event\<close> builds\<close>

lemma add_event_dict_closed_form:
  "add_event_dict lib (JObj d) =
     (case
        (case map_of d ''device_time'' of
           None \<Rightarrow> Inr []
         | Some dt \<Rightarrow>
             (case py_int lib dt of
                Inl e \<Rightarrow> Inl e
              | Inr n \<Rightarrow>
                  (case py_truediv n 1000 of
                     Inl e \<Rightarrow> Inl e
                   | Inr t \<Rightarrow> Inr [(''time'', JFloat t)])))
      of
        Inl e \<Rightarrow> Inl e
      | Inr time_part \<Rightarrow>
          Inr ((''event'', JObj d) # time_part @
               (case map_of d ''device_name'' of None \<Rightarrow> [] | Some v \<Rightarrow> [(''host'', v)]) @
               (case map_of d ''product_name'' of None \<Rightarrow> [] | Some v \<Rightarrow> [(''source'', v)])))"
proof (cases "map_of d ''device_time''")
  case None
  show ?thesis
    by (cases "map_of d ''device_name''"; cases "map_of d ''product_name''")
       (simp_all add: add_event_dict_def has_key_map_of getitem_def setitem_def None)
next
  case (Some dt)
  show ?thesis
  proof (cases "py_int lib dt")
    case (Inl e)
    then show ?thesis
      by (simp add: add_event_dict_def has_key_map_of getitem_def Some)
  next
    case (Inr n)
    show ?thesis
    proof (cases "py_truediv n 1000")
      case (Inl e)
      then show ?thesis
        by (simp add: add_event_dict_def has_key_map_of getitem_def Some Inr)
    next
      case t: (Inr t)
      show ?thesis
        by (cases "map_of d ''device_name''"; cases "map_of d ''product_name''")
           (simp_all add: add_event_dict_def has_key_map_of getitem_def setitem_def Some Inr t)
    qed
  qed
qed

lemma add_event_dict_is_object:
  "add_event_dict lib json_data = Inr event \<Longrightarrow> \<exists>d. json_data = JObj d"
  by (cases json_data) (simp_all add: add_event_dict_def)

lemma add_event_dict_event:
  "add_event_dict lib (JObj d) = Inr event \<Longrightarrow> map_of event ''event'' = Some (JObj d)"
  by (auto simp: add_event_dict_closed_form split: sum.splits)

lemma add_event_dict_time_key:
  "add_event_dict lib (JObj d) = Inr event \<Longrightarrow> has_key event ''time'' \<longleftrightarrow> has_key d ''device_time''"
  by (auto simp: add_event_dict_closed_form has_key_map_of split: sum.splits option.splits)

lemma add_event_dict_time:
  "add_event_dict lib (JObj d) = Inr event \<Longrightarrow> map_of d ''device_time'' = Some dt \<Longrightarrow>
     \<exists>n. py_int lib dt = Inr n \<and>
         map_of event ''time'' = Some (JFloat (Fin (round_double (rat_of_int n / 1000))))"
  by (auto simp: add_event_dict_closed_form py_truediv_def split: sum.splits option.splits if_splits)

lemma add_event_dict_host:
  "add_event_dict lib (JObj d) = Inr event \<Longrightarrow> map_of event ''host'' = map_of d ''device_name''"
  by (auto simp: add_event_dict_closed_form split: sum.splits option.splits)

lemma add_event_dict_source:
  "add_event_dict lib (JObj d) = Inr event \<Longrightarrow> map_of event ''source'' = map_of d ''product_name''"
  by (auto simp: add_event_dict_closed_form split: sum.splits option.splits)

lemma add_event_dict_keys:
  "add_event_dict lib (JObj d) = Inr event \<Longrightarrow>
     set (map fst event) \<subseteq> {''event'', ''time'', ''host'', ''source''}"
  by (auto simp: add_event_dict_closed_form split: sum.splits option.splits)

lemma add_event_Inr:
  assumes "add_event lib json_data = Inr s"
  shows "\<exists>d event.
           json_data = JObj d \<and> add_event_dict lib json_data = Inr event \<and>
           s = json_dumps lib (JObj event) \<and>
           map_of event ''event'' = Some json_data \<and>
           (has_key event ''time'' \<longleftrightarrow> has_key d ''device_time'') \<and>
           (has_key event ''host'' \<longleftrightarrow> has_key d ''device_name'') \<and>
           (has_key event ''source'' \<longleftrightarrow> has_key d ''product_name'') \<and>
           map_of event ''host'' = map_of d ''device_name'' \<and>
           map_of event ''source'' = map_of d ''product_name'' \<and>
           set (map fst event) \<subseteq> {''event'', ''time'', ''host'', ''source''}"
proof -
  from assms obtain event where ev: "add_event_dict lib json_data = Inr event"
    and s: "s = json_dumps lib (JObj event)"
    by (auto simp: add_event_def split: sum.splits)
  from add_event_dict_is_object [OF ev] obtain d where d: "json_data = JObj d" ..
  note ev' = ev [unfolded d]
  have "map_of event ''event'' = Some json_data"
    using add_event_dict_event [OF ev'] d by simp
  moreover have "has_key event ''time'' \<longleftrightarrow> has_key d ''device_time''"
    by (rule add_event_dict_time_key [OF ev'])
  moreover have h: "map_of event ''host'' = map_of d ''device_name''"
    by (rule add_event_dict_host [OF ev'])
  moreover have so: "map_of event ''source'' = map_of d ''product_name''"
    by (rule add_event_dict_source [OF ev'])
  moreover have "has_key event ''host'' \<longleftrightarrow> has_key d ''device_name''"
    by (simp add: has_key_map_of h)
  moreover have "has_key event ''source'' \<longleftrightarrow> has_key d ''product_name''"
    by (simp add: has_key_map_of so)
  moreover have "set (map fst event) \<subseteq> {''event'', ''time'', ''host'', ''source''}"
    by (rule add_event_dict_keys [OF ev'])
  ultimately show ?thesis
    using d ev s by blast
qed

lemma add_event_produces:
  assumes "\<forall>dt. map_of d ''device_time'' = Some dt \<longrightarrow>
             (\<exists>n. py_int lib dt = Inr n \<and> \<bar>rat_of_int n / 1000\<bar> < 2 ^ 1024 - 2 ^ 970)"
  shows "\<exists>s. add_event lib (JObj d) = Inr s"
proof (cases "map_of d ''device_time''")
  case None
  then show ?thesis
    by (simp add: add_event_def add_event_dict_closed_form)
next
  case (Some dt)
  with assms obtain n where n: "py_int lib dt = Inr n"
    and b: "\<bar>rat_of_int n / 1000\<bar> < 2 ^ 1024 - 2 ^ 970"
    by blast
  have "py_truediv n 1000 = Inr (Fin (round_double (rat_of_int n / 1000)))"
    using b by (simp add: py_truediv_def)
  then show ?thesis
    by (simp add: add_event_def add_event_dict_closed_form Some n)
qed

text \<open>
  Claim C4. Whenever \<^verbatim>\<open>add_event\<close> returns, the payload is an object and the string
  returned serializes a record in which \<^verbatim>\<open>event\<close> is present and is the payload itself;
  \<^verbatim>\<open>time\<close>, \<^verbatim>\<open>host\<close> and \<^verbatim>\<open>source\<close> are present exactly when the payload has
  \<^verbatim>\<open>device_time\<close>, \<^verbatim>\<open>device_name\<close> and \<^verbatim>\<open>product_name\<close>; \<^verbatim>\<open>host\<close> is the value of
  \<^verbatim>\<open>device_name\<close> and \<^verbatim>\<open>source\<close> that of \<^verbatim>\<open>product_name\<close>; and the record has no other
  key. So a payload without \<^verbatim>\<open>device_name\<close> gives a record without \<^verbatim>\<open>host\<close>.
  \<^verbatim>\<open>add_event\<close> does return on every object whose \<^verbatim>\<open>device_time\<close> is absent, or is
  accepted by \<^verbatim>\<open>int\<close> with a quotient by 1000 inside the range of a double.
\<close>

theorem event_record_fields:
  "(\<forall>s. add_event lib json_data = Inr s \<longrightarrow>
      (\<exists>d event.
         json_data = JObj d \<and> add_event_dict lib json_data = Inr event \<and>
         s = json_dumps lib (JObj event) \<and>
         map_of event ''event'' = Some json_data \<and>
         (has_key event ''time'' \<longleftrightarrow> has_key d ''device_time'') \<and>
         (has_key event ''host'' \<longleftrightarrow> has_key d ''device_name'') \<and>
         (has_key event ''source'' \<longleftrightarrow> has_key d ''product_name'') \<and>
         map_of event ''host'' = map_of d ''device_name'' \<and>
         map_of event ''source'' = map_of d ''product_name'' \<and>
         set (map fst event) \<subseteq> {''event'', ''time'', ''host'', ''source''})) \<and>
   (\<forall>d. json_data = JObj d \<and>
        (\<forall>dt. map_of d ''device_time'' = Some dt \<longrightarrow>
           (\<exists>n. py_int lib dt = Inr n \<and> \<bar>rat_of_int n / 1000\<bar> < 2 ^ 1024 - 2 ^ 970)) \<longrightarrow>
      (\<exists>s. add_event lib json_data = Inr s))"
proof (intro conjI allI impI)
  fix s assume "add_event lib json_data = Inr s"
  then show "\<exists>d event.
         json_data = JObj d \<and> add_event_dict lib json_data = Inr event \<and>
         s = json_dumps lib (JObj event) \<and>
         map_of event ''event'' = Some json_data \<and>
         (has_key event ''time'' \<longleftrightarrow> has_key d ''device_time'') \<and>
         (has_key event ''host'' \<longleftrightarrow> has_key d ''device_name'') \<and>
         (has_key event ''source'' \<longleftrightarrow> has_key d ''product_name'') \<and>
         map_of event ''host'' = map_of d ''device_name'' \<and>
         map_of event ''source'' = map_of d ''product_name'' \<and>
         set (map fst event) \<subseteq> {''event'', ''time'', ''host'', ''source''}"
    by (rule add_event_Inr)
next
  fix d
  assume h: "json_data = JObj d \<and>
        (\<forall>dt. map_of d ''device_time'' = Some dt \<longrightarrow>
           (\<exists>n. py_int lib dt = Inr n \<and> \<bar>rat_of_int n / 1000\<bar> < 2 ^ 1024 - 2 ^ 970))"
  then have d: "json_data = JObj d" by blast
  from h show "\<exists>s. add_event lib json_data = Inr s"
    unfolding d by (intro add_event_produces) blast
qed

theorem event_record_fields_witness:
  "add_event_dict example_lib (JObj [(''device_time'', JInt 1500000), (''product_name'', JStr ''SA'')]) =
     Inr [(''event'', JObj [(''device_time'', JInt 1500000), (''product_name'', JStr ''SA'')]),
          (''time'', JFloat (Fin 1500)), (''source'', JStr ''SA'')] \<and>
   (\<exists>d event.
      JObj [(''device_time'', JInt 1500000), (''product_name'', JStr ''SA'')] = JObj d \<and>
      \<not> has_key d ''device_name'' \<and> \<not> has_key event ''host'' \<and>
      has_key event ''time'' \<and> has_key event ''source'' \<and>
      map_of event ''event'' =
        Some (JObj [(''device_time'', JInt 1500000), (''product_name'', JStr ''SA'')]) \<and>
      add_event example_lib (JObj [(''device_time'', JInt 1500000), (''product_name'', JStr ''SA'')]) =
        Inr (json_dumps example_lib (JObj event)))"
proof -
  let ?p = "JObj [(''device_time'', JInt 1500000), (''product_name'', JStr ''SA'')]"
  let ?e = "[(''event'', ?p), (''time'', JFloat (Fin 1500)), (''source'', JStr ''SA'')]"
  have r: "add_event_dict example_lib ?p = Inr ?e"
    by (simp add: add_event_dict_closed_form py_int_def py_truediv_1500000)
  have a: "add_event example_lib ?p = Inr (json_dumps example_lib (JObj ?e))"
    by (simp add: add_event_def r)
  from event_record_fields [THEN conjunct1, rule_format, OF a] obtain d event where
    d: "?p = JObj d" and e: "add_event_dict example_lib ?p = Inr event"
    and h: "has_key event ''host'' \<longleftrightarrow> has_key d ''device_name''"
    and t: "has_key event ''time'' \<longleftrightarrow> has_key d ''device_time''"
    and s: "has_key event ''source'' \<longleftrightarrow> has_key d ''product_name''"
    and m: "map_of event ''event'' = Some ?p"
    by blast
  have dd: "d = [(''device_time'', JInt 1500000), (''product_name'', JStr ''SA'')]"
    using d by simp
  have ee: "event = ?e" using e r by simp
  have k: "\<not> has_key d ''device_name''" "has_key d ''device_time''" "has_key d ''product_name''"
    by (simp_all add: dd has_key_def)
  have "?p = JObj d \<and> \<not> has_key d ''device_name'' \<and> \<not> has_key event ''host'' \<and>
      has_key event ''time'' \<and> has_key event ''source'' \<and> map_of event ''event'' = Some ?p \<and>
      add_event example_lib ?p = Inr (json_dumps example_lib (JObj event))"
    using d k h t s m a ee by blast
  then show ?thesis using r by blast
qed

subsection \<open>The \<^verbatim>\<open>time\<close> field\<close>

lemma py_int_JInt: "py_int lib (JInt i) = Inr i"
  by (simp add: py_int_def)

lemma py_int_JFloat: "py_int lib (JFloat (Fin q)) = Inr (trunc_rat q)"
  by (simp add: py_int_def int_of_float_def)

lemma py_truediv_1: "py_truediv 1 1000 = Inr (Fin (1152921504606847 / 2 ^ 60))"
  by (simp add: py_truediv_def round_double_thousandth)

lemma trunc_rat_example: "trunc_rat (3000001 / 2) = 1500000"
  by code_simp

text \<open>
  Claim C3, as the code has it. When the payload has \<^verbatim>\<open>device_time\<close> and \<^verbatim>\<open>add_event\<close>
  returns, \<^verbatim>\<open>time\<close> is \<^verbatim>\<open>int(device_time) / 1000\<close>: the value is first converted by
  \<^verbatim>\<open>int\<close>, which leaves an integer as it is and truncates a float towards zero, and the
  integer is then divided by 1000. A fractional part of \<^verbatim>\<open>device_time\<close> is dropped before
  the division. With \<^verbatim>\<open>device_time = 1500000\<close> a record is produced and its \<^verbatim>\<open>time\<close> is
  1500.0.
\<close>

theorem time_is_truncated_device_time:
  "(add_event lib (JObj d) = Inr s \<and> map_of d ''device_time'' = Some dt \<longrightarrow>
      (\<exists>n event.
         py_int lib dt = Inr n \<and> add_event_dict lib (JObj d) = Inr event \<and>
         s = json_dumps lib (JObj event) \<and>
         map_of event ''time'' = Some (JFloat (Fin (round_double (rat_of_int n / 1000)))) \<and>
         (\<forall>i. dt = JInt i \<longrightarrow> n = i) \<and>
         (\<forall>q. dt = JFloat (Fin q) \<longrightarrow> n = trunc_rat q))) \<and>
   (map_of d ''device_time'' = Some (JInt 1500000) \<longrightarrow>
      (\<exists>event. add_event_dict lib (JObj d) = Inr event \<and>
         map_of event ''time'' = Some (JFloat (Fin 1500))))"
proof (intro conjI impI)
  assume h: "add_event lib (JObj d) = Inr s \<and> map_of d ''device_time'' = Some dt"
  then obtain event where ev: "add_event_dict lib (JObj d) = Inr event"
    and s: "s = json_dumps lib (JObj event)"
    by (auto simp: add_event_def split: sum.splits)
  from add_event_dict_time [OF ev] h obtain n where n: "py_int lib dt = Inr n"
    and t: "map_of event ''time'' = Some (JFloat (Fin (round_double (rat_of_int n / 1000))))"
    by blast
  have "\<forall>i. dt = JInt i \<longrightarrow> n = i"
    using n by (auto simp: py_int_JInt)
  moreover have "\<forall>q. dt = JFloat (Fin q) \<longrightarrow> n = trunc_rat q"
    using n by (auto simp: py_int_JFloat)
  ultimately show "\<exists>n event.
         py_int lib dt = Inr n \<and> add_event_dict lib (JObj d) = Inr event \<and>
         s = json_dumps lib (JObj event) \<and>
         map_of event ''time'' = Some (JFloat (Fin (round_double (rat_of_int n / 1000)))) \<and>
         (\<forall>i. dt = JInt i \<longrightarrow> n = i) \<and>
         (\<forall>q. dt = JFloat (Fin q) \<longrightarrow> n = trunc_rat q)"
    using n ev s t by blast
next
  assume h: "map_of d ''device_time'' = Some (JInt 1500000)"
  show "\<exists>event. add_event_dict lib (JObj d) = Inr event \<and>
         map_of event ''time'' = Some (JFloat (Fin 1500))"
    by (simp add: add_event_dict_closed_form h py_int_JInt py_truediv_1500000)
qed

theorem time_is_truncated_device_time_witness:
  "(\<exists>event. add_event_dict example_lib (JObj [(''device_time'', JInt 1500000)]) = Inr event \<and>
      map_of event ''time'' = Some (JFloat (Fin 1500))) \<and>
   (\<exists>n event.
      py_int example_lib (JFloat (Fin (3000001 / 2))) = Inr n \<and> n = 1500000 \<and>
      add_event_dict example_lib (JObj [(''device_time'', JFloat (Fin (3000001 / 2)))]) = Inr event \<and>
      map_of event ''time'' = Some (JFloat (Fin 1500))) \<and>
   (\<exists>event.
      add_event_dict example_lib (JObj [(''device_time'', JInt 1)]) = Inr event \<and>
      map_of event ''time'' = Some (JFloat (Fin (1152921504606847 / 2 ^ 60))))"
proof -
  let ?d1 = "[(''device_time'', JInt 1500000)]"
  let ?d2 = "[(''device_time'', JFloat (Fin (3000001 / 2)))]"
  let ?d3 = "[(''device_time'', JInt 1)]"
  have h1: "map_of ?d1 ''device_time'' = Some (JInt 1500000)" by simp
  have h2: "map_of ?d2 ''device_time'' = Some (JFloat (Fin (3000001 / 2)))" by simp
  have h3: "map_of ?d3 ''device_time'' = Some (JInt 1)" by simp
  have r: "add_event_dict example_lib (JObj ?d2) =
             Inr [(''event'', JObj ?d2), (''time'', JFloat (Fin 1500))]"
    by (simp add: add_event_dict_closed_form py_int_JFloat trunc_rat_example py_truediv_1500000)
  have a: "add_event example_lib (JObj ?d2) =
             Inr (json_dumps example_lib (JObj [(''event'', JObj ?d2), (''time'', JFloat (Fin 1500))]))"
    by (simp add: add_event_def r)
  have r3: "add_event_dict example_lib (JObj ?d3) =
             Inr [(''event'', JObj ?d3), (''time'', JFloat (Fin (1152921504606847 / 2 ^ 60)))]"
    by (simp add: add_event_dict_closed_form py_int_JInt py_truediv_1)
  have a3: "add_event example_lib (JObj ?d3) =
             Inr (json_dumps example_lib
                    (JObj [(''event'', JObj ?d3), (''time'', JFloat (Fin (1152921504606847 / 2 ^ 60)))]))"
    by (simp add: add_event_def r3)
  note t = time_is_truncated_device_time [where lib = example_lib]
  from t [where d = ?d1, THEN conjunct2, rule_format, OF h1]
  have one: "\<exists>event. add_event_dict example_lib (JObj ?d1) = Inr event \<and>
      map_of event ''time'' = Some (JFloat (Fin 1500))" .
  from t [where d = ?d2, THEN conjunct1, rule_format, OF conjI [OF a h2]]
  obtain n event where n: "py_int example_lib (JFloat (Fin (3000001 / 2))) = Inr n"
    and q: "\<forall>q. JFloat (Fin (3000001 / 2)) = JFloat (Fin q) \<longrightarrow> n = trunc_rat q"
    and e: "add_event_dict example_lib (JObj ?d2) = Inr event"
    and m: "map_of event ''time'' = Some (JFloat (Fin (round_double (rat_of_int n / 1000))))"
    by blast
  have "n = trunc_rat (3000001 / 2)" using q by blast
  then have n': "n = 1500000" by (simp only: trunc_rat_example)
  have "rat_of_int n / 1000 = 1500" by (simp add: n')
  then have "map_of event ''time'' = Some (JFloat (Fin 1500))"
    using m by (simp only: round_double_1500)
  then have two: "\<exists>n event.
      py_int example_lib (JFloat (Fin (3000001 / 2))) = Inr n \<and> n = 1500000 \<and>
      add_event_dict example_lib (JObj ?d2) = Inr event \<and>
      map_of event ''time'' = Some (JFloat (Fin 1500))"
    using n n' e by blast
  from t [where d = ?d3, THEN conjunct1, rule_format, OF conjI [OF a3 h3]]
  obtain k event3 where k: "\<forall>i. JInt 1 = JInt i \<longrightarrow> k = i"
    and e3: "add_event_dict example_lib (JObj ?d3) = Inr event3"
    and m3: "map_of event3 ''time'' = Some (JFloat (Fin (round_double (rat_of_int k / 1000))))"
    by blast
  have "k = 1" using k by blast
  then have "rat_of_int k / 1000 = 1 / 1000" by simp
  then have "map_of event3 ''time'' = Some (JFloat (Fin (1152921504606847 / 2 ^ 60)))"
    using m3 by (simp only: round_double_thousandth)
  then have three: "\<exists>event.
      add_event_dict example_lib (JObj ?d3) = Inr event \<and>
      map_of event ''time'' = Some (JFloat (Fin (1152921504606847 / 2 ^ 60)))"
    using e3 by blast
  from one two three show ?thesis by blast
qed

text \<open>
  The claim as the specification words it has \<^verbatim>\<open>time\<close> equal to the numeric value of
  \<^verbatim>\<open>device_time\<close> divided by 1000, fraction included. For \<^verbatim>\<open>device_time = 1500000.5\<close>
  that would be 1500.0005; the code gives 1500.0.
\<close>

theorem time_keeps_fraction_counterexample:
  "add_event_dict example_lib (JObj [(''device_time'', JFloat (Fin (3000001 / 2)))]) =
     Inr [(''event'', JObj [(''device_time'', JFloat (Fin (3000001 / 2)))]),
          (''time'', JFloat (Fin 1500))] \<and>
   JFloat (Fin 1500) \<noteq> JFloat (Fin ((3000001 / 2) / 1000)) \<and>
   JFloat (Fin 1500) \<noteq> JFloat (Fin (round_double ((3000001 / 2) / 1000)))"
  by (simp add: add_event_dict_closed_form py_int_JFloat trunc_rat_example py_truediv_1500000
        round_double_fraction)

subsection \<open>The size of a batch\<close>

lemma length_as_list: "length (as_list loaded) = (case loaded of JList xs \<Rightarrow> length xs | _ \<Rightarrow> 1)"
  by (cases loaded) (simp_all add: as_list_def)

lemma send_to_splunk_delivered:
  assumes "decode_body lib enc raw = Inr json_str" and "json_loads lib json_str = Inr loaded"
    and "event_list lib (as_list loaded) = Inr evs" and "\<not> raises_for_status status"
  shows "send_to_splunk lib cfg enc raw (Reply status reason) =
           ((if debug cfg then [Print (newline @ ''Sending data: '' @ json_str @ newline)] else []) @
            [Post (splunk_url cfg) (''Splunk '' @ splunk_token cfg) (event_data evs)] @
            (if verbose cfg then [Print ''.''] else []),
            Inr (length (as_list loaded)))"
  using assms by (simp add: send_to_splunk_def reply_ok_def)

lemma send_to_splunk_count:
  assumes "decode_body lib enc raw = Inr json_str" and "json_loads lib json_str = Inr loaded"
    and n: "snd (send_to_splunk lib cfg enc raw outcome) = Inr n"
  shows "n = length (as_list loaded) \<and>
      (\<exists>evs. event_list lib (as_list loaded) = Inr evs \<and> length evs = n \<and>
         Post (splunk_url cfg) (''Splunk '' @ splunk_token cfg) (concat evs)
           \<in> set (fst (send_to_splunk lib cfg enc raw outcome)))"
proof -
  from n obtain js l evs status reason where
    "decode_body lib enc raw = Inr js" "json_loads lib js = Inr l"
    "event_list lib (as_list l) = Inr evs" and o: "outcome = Reply status reason"
    and ok: "\<not> raises_for_status status" and "n = length (as_list l)"
    unfolding send_to_splunk_Inr by blast
  with assms(1,2) have evs: "event_list lib (as_list loaded) = Inr evs"
    and len: "n = length (as_list loaded)"
    by simp_all
  have "Post (splunk_url cfg) (''Splunk '' @ splunk_token cfg) (concat evs)
           \<in> set (fst (send_to_splunk lib cfg enc raw outcome))"
    unfolding o send_to_splunk_delivered [OF assms(1,2) evs ok] by (simp add: event_data_def)
  moreover have "length evs = n"
    using event_list_length [OF evs] len by simp
  ultimately show ?thesis using evs len by blast
qed

lemma send_to_splunk_produces:
  assumes "decode_body lib enc raw = Inr json_str" and "json_loads lib json_str = Inr loaded"
    and all: "\<forall>p \<in> set (as_list loaded). \<exists>s. add_event lib p = Inr s"
    and ok: "\<not> raises_for_status status"
  shows "snd (send_to_splunk lib cfg enc raw (Reply status reason)) = Inr (length (as_list loaded))"
proof -
  from event_list_total [OF all] obtain evs where evs: "event_list lib (as_list loaded) = Inr evs" ..
  show ?thesis unfolding send_to_splunk_delivered [OF assms(1,2) evs ok] by simp
qed

lemma as_list_JList: "as_list (JList xs) = xs"
  by (simp add: as_list_def)

lemma as_list_single: "(\<forall>xs. loaded \<noteq> JList xs) \<Longrightarrow> as_list loaded = [loaded]"
  by (cases loaded) (simp_all add: as_list_def)

lemma event_list_single: "event_list lib [p] = Inr evs \<longleftrightarrow> (\<exists>s. add_event lib p = Inr s \<and> evs = [s])"
  by (auto split: sum.splits)

text \<open>
  Claim C5. For a message whose body decodes and parses, the batch, whenever it is built,
  has as many records as the body has elements: one when the body is not a list, and the
  length of the list otherwise. Whenever \<^verbatim>\<open>send_to_splunk\<close> returns a count, the count is
  that number, and the request it posted carries a batch of that size. The batch is built
  and the count returned as soon as \<^verbatim>\<open>add_event\<close> returns on every element and the reply
  is not an error. In particular a body that is a list of three elements gives a batch of
  exactly three records and the count 3.
\<close>

theorem batch_size_is_number_of_elements:
  assumes "decode_body lib enc raw = Inr json_str" and "json_loads lib json_str = Inr loaded"
  shows "(\<forall>xs. loaded = JList xs \<longrightarrow>
            (\<forall>n. snd (send_to_splunk lib cfg enc raw outcome) = Inr n \<longrightarrow>
               n = length xs \<and>
               (\<exists>evs. list_all2 (\<lambda>p s. add_event lib p = Inr s) xs evs \<and>
                  length evs = length xs \<and>
                  Post (splunk_url cfg) (''Splunk '' @ splunk_token cfg) (concat evs)
                    \<in> set (fst (send_to_splunk lib cfg enc raw outcome)))) \<and>
            (\<forall>status reason.
               (\<forall>p \<in> set xs. \<exists>s. add_event lib p = Inr s) \<and>
               outcome = Reply status reason \<and> \<not> raises_for_status status \<longrightarrow>
                 snd (send_to_splunk lib cfg enc raw outcome) = Inr (length xs))) \<and>
         ((\<forall>xs. loaded \<noteq> JList xs) \<longrightarrow>
            (\<forall>n. snd (send_to_splunk lib cfg enc raw outcome) = Inr n \<longrightarrow>
               n = 1 \<and>
               (\<exists>s. add_event lib loaded = Inr s \<and>
                  Post (splunk_url cfg) (''Splunk '' @ splunk_token cfg) s
                    \<in> set (fst (send_to_splunk lib cfg enc raw outcome)))) \<and>
            (\<forall>status reason.
               (\<exists>s. add_event lib loaded = Inr s) \<and>
               outcome = Reply status reason \<and> \<not> raises_for_status status \<longrightarrow>
                 snd (send_to_splunk lib cfg enc raw outcome) = Inr 1)) \<and>
         (\<forall>a b c. loaded = JList [a, b, c] \<longrightarrow>
            (\<forall>n. snd (send_to_splunk lib cfg enc raw outcome) = Inr n \<longrightarrow>
               n = 3 \<and>
               (\<exists>sa sb sc.
                  add_event lib a = Inr sa \<and> add_event lib b = Inr sb \<and>
                  add_event lib c = Inr sc \<and>
                  Post (splunk_url cfg) (''Splunk '' @ splunk_token cfg) (sa @ sb @ sc)
                    \<in> set (fst (send_to_splunk lib cfg enc raw outcome)))))"
proof (intro conjI allI impI)
  fix xs n
  assume l: "loaded = JList xs" and n: "snd (send_to_splunk lib cfg enc raw outcome) = Inr n"
  from send_to_splunk_count [OF assms n] obtain evs where
    c: "n = length xs" and e: "event_list lib xs = Inr evs" and len: "length evs = n"
    and p: "Post (splunk_url cfg) (''Splunk '' @ splunk_token cfg) (concat evs)
              \<in> set (fst (send_to_splunk lib cfg enc raw outcome))"
    unfolding l as_list_JList by blast
  show "n = length xs" by (rule c)
  from e have "list_all2 (\<lambda>p s. add_event lib p = Inr s) xs evs"
    by (simp only: event_list_all2)
  with len c p
  show "\<exists>evs. list_all2 (\<lambda>p s. add_event lib p = Inr s) xs evs \<and>
                  length evs = length xs \<and>
                  Post (splunk_url cfg) (''Splunk '' @ splunk_token cfg) (concat evs)
                    \<in> set (fst (send_to_splunk lib cfg enc raw outcome))"
    by blast
next
  fix xs status reason
  assume l: "loaded = JList xs"
    and h: "(\<forall>p \<in> set xs. \<exists>s. add_event lib p = Inr s) \<and>
               outcome = Reply status reason \<and> \<not> raises_for_status status"
  then have o: "outcome = Reply status reason"
    and all: "\<forall>p \<in> set (as_list loaded). \<exists>s. add_event lib p = Inr s"
    and ok: "\<not> raises_for_status status"
    by (simp_all add: as_list_JList)
  from send_to_splunk_produces [OF assms all ok]
  show "snd (send_to_splunk lib cfg enc raw outcome) = Inr (length xs)"
    unfolding o l as_list_JList .
next
  fix n
  assume l: "\<forall>xs. loaded \<noteq> JList xs"
    and n: "snd (send_to_splunk lib cfg enc raw outcome) = Inr n"
  note one = as_list_single [OF l]
  from send_to_splunk_count [OF assms n] obtain evs where
    c: "n = 1" and e: "event_list lib [loaded] = Inr evs"
    and p: "Post (splunk_url cfg) (''Splunk '' @ splunk_token cfg) (concat evs)
              \<in> set (fst (send_to_splunk lib cfg enc raw outcome))"
    unfolding one by auto
  show "n = 1" by (rule c)
  from e obtain s where s: "add_event lib loaded = Inr s" and evs: "evs = [s]"
    unfolding event_list_single by blast
  from p have "Post (splunk_url cfg) (''Splunk '' @ splunk_token cfg) s
              \<in> set (fst (send_to_splunk lib cfg enc raw outcome))"
    unfolding evs by simp
  with s show "\<exists>s. add_event lib loaded = Inr s \<and>
                  Post (splunk_url cfg) (''Splunk '' @ splunk_token cfg) s
                    \<in> set (fst (send_to_splunk lib cfg enc raw outcome))"
    by blast
next
  fix status reason
  assume l: "\<forall>xs. loaded \<noteq> JList xs"
    and h: "(\<exists>s. add_event lib loaded = Inr s) \<and>
               outcome = Reply status reason \<and> \<not> raises_for_status status"
  note one = as_list_single [OF l]
  from h have o: "outcome = Reply status reason"
    and all: "\<forall>p \<in> set (as_list loaded). \<exists>s. add_event lib p = Inr s"
    and ok: "\<not> raises_for_status status"
    by (simp_all add: one)
  from send_to_splunk_produces [OF assms all ok, of cfg reason]
  show "snd (send_to_splunk lib cfg enc raw outcome) = Inr 1"
    unfolding o one by simp
next
  fix a b c n
  assume l: "loaded = JList [a, b, c]"
    and n: "snd (send_to_splunk lib cfg enc raw outcome) = Inr n"
  from send_to_splunk_count [OF assms n] obtain evs where
    c: "n = 3" and e: "event_list lib [a, b, c] = Inr evs"
    and p: "Post (splunk_url cfg) (''Splunk '' @ splunk_token cfg) (concat evs)
              \<in> set (fst (send_to_splunk lib cfg enc raw outcome))"
    unfolding l as_list_JList by auto
  show "n = 3" by (rule c)
  from e obtain sa sb sc where s: "add_event lib a = Inr sa" "add_event lib b = Inr sb"
      "add_event lib c = Inr sc" and evs: "evs = [sa, sb, sc]"
    by (auto split: sum.splits)
  from p have "Post (splunk_url cfg) (''Splunk '' @ splunk_token cfg) (sa @ sb @ sc)
              \<in> set (fst (send_to_splunk lib cfg enc raw outcome))"
    unfolding evs by simp
  with s show "\<exists>sa sb sc.
                  add_event lib a = Inr sa \<and> add_event lib b = Inr sb \<and>
                  add_event lib c = Inr sc \<and>
                  Post (splunk_url cfg) (''Splunk '' @ splunk_token cfg) (sa @ sb @ sc)
                    \<in> set (fst (send_to_splunk lib cfg enc raw outcome))"
    by blast
qed

theorem batch_size_is_number_of_elements_witness:
  \<open>decode_body example_lib None ''[{}, {}, {}]'' = Inr ''[{}, {}, {}]'' \<and>
   json_loads example_lib ''[{}, {}, {}]'' = Inr (JList [JObj [], JObj [], JObj []]) \<and>
   snd (send_to_splunk example_lib example_config None ''[{}, {}, {}]'' (Reply 200 ''OK'')) =
     Inr 3 \<and>
   (\<exists>sa sb sc.
      add_event example_lib (JObj []) = Inr sa \<and> add_event example_lib (JObj []) = Inr sb \<and>
      add_event example_lib (JObj []) = Inr sc \<and>
      Post (splunk_url example_config) (''Splunk '' @ splunk_token example_config) (sa @ sb @ sc)
        \<in> set (fst (send_to_splunk example_lib example_config None ''[{}, {}, {}]''
                       (Reply 200 ''OK''))))\<close>
proof -
  let ?xs = "[JObj [], JObj [], JObj []]"
  have d: "decode_body example_lib None ''[{}, {}, {}]'' = Inr ''[{}, {}, {}]''"
    by (simp add: decode_body_def example_lib_def)
  have j: "json_loads example_lib ''[{}, {}, {}]'' = Inr (JList ?xs)"
    by (simp add: example_lib_def)
  have a: "add_event example_lib (JObj []) = Inr (json_dumps example_lib (JObj [(''event'', JObj [])]))"
    by (simp add: add_event_def add_event_dict_closed_form)
  have all: "\<forall>p \<in> set ?xs. \<exists>s. add_event example_lib p = Inr s"
    by (simp add: a)
  have ok: "\<not> raises_for_status 200" by (simp add: raises_for_status_def)
  note t = batch_size_is_number_of_elements [OF d j, of example_config "Reply 200 ''OK''"]
  from t [THEN conjunct1, rule_format, OF refl, THEN conjunct2, rule_format, of 200 "''OK''"] all ok
  have two: "snd (send_to_splunk example_lib example_config None ''[{}, {}, {}]'' (Reply 200 ''OK'')) =
     Inr (length ?xs)"
    by blast
  then have three: "snd (send_to_splunk example_lib example_config None ''[{}, {}, {}]'' (Reply 200 ''OK'')) =
     Inr 3" by simp
  from t [THEN conjunct2, THEN conjunct2, rule_format, OF refl three]
  have four: "\<exists>sa sb sc.
      add_event example_lib (JObj []) = Inr sa \<and> add_event example_lib (JObj []) = Inr sb \<and>
      add_event example_lib (JObj []) = Inr sc \<and>
      Post (splunk_url example_config) (''Splunk '' @ splunk_token example_config) (sa @ sb @ sc)
        \<in> set (fst (send_to_splunk example_lib example_config None ''[{}, {}, {}]''
                       (Reply 200 ''OK'')))"
    by blast
  from d j three four show ?thesis by blast
qed

section \<open>Facts about the Aggregator\<close>

lemma trunc_rat_elapsed:
  assumes "0 \<le> t0" and "t0 + 5 \<le> clock"
  shows "trunc_rat clock - trunc_rat t0 \<ge> 5"
proof -
  have "0 \<le> clock" using assms by simp
  have "\<lfloor>t0\<rfloor> + 5 = \<lfloor>t0 + 5\<rfloor>" by simp
  also have "\<dots> \<le> \<lfloor>clock\<rfloor>" using assms(2) by (rule floor_mono)
  finally show ?thesis using assms(1) \<open>0 \<le> clock\<close> by (simp add: trunc_rat_def)
qed

lemma py_truediv_in_range:
  assumes "b \<noteq> 0" and "\<bar>rat_of_int a / rat_of_int b\<bar> < 2 ^ 1024 - 2 ^ 970"
  shows "py_truediv a b = Inr (Fin (round_double (rat_of_int a / rat_of_int b)))"
  using assms by (simp add: py_truediv_def)

lemma py_truediv_cases:
  "(\<exists>e. py_truediv a b = Inl e) \<or> (\<exists>q. py_truediv a b = Inr (Fin q))"
  by (simp add: py_truediv_def)

lemma aggregate_report:
  assumes "trunc_rat clock - last_time c \<ge> 5"
    and "\<bar>rat_of_int (total_msg_count c + 1 - last_total_msg_count c) /
          rat_of_int (trunc_rat clock - last_time c)\<bar> < 2 ^ 1024 - 2 ^ 970"
    and "\<bar>rat_of_int (total_session_count c + int session_count - last_total_session_count c) /
          rat_of_int (trunc_rat clock - last_time c)\<bar> < 2 ^ 1024 - 2 ^ 970"
  shows "aggregate cfg c (process_num, session_count) clock =
     Inr ([Report (rabbitmq_exchange cfg) (total_msg_count c + 1)
             (Fin (round_double
                (rat_of_int (total_msg_count c + 1 - last_total_msg_count c) /
                 rat_of_int (trunc_rat clock - last_time c))))
             (trunc_rat
                (round_double
                   (rat_of_int (total_session_count c + int session_count -
                                last_total_session_count c) /
                    rat_of_int (trunc_rat clock - last_time c))))],
          c\<lparr>total_msg_count := total_msg_count c + 1,
            total_session_count := total_session_count c + int session_count,
            last_time := trunc_rat clock,
            last_total_msg_count := total_msg_count c + 1,
            last_total_session_count := total_session_count c + int session_count\<rparr>)"
proof -
  have nz: "trunc_rat clock - last_time c \<noteq> 0" using assms(1) by simp
  note m = py_truediv_in_range [OF nz assms(2)]
  note s = py_truediv_in_range [OF nz assms(3)]
  show ?thesis
    using assms(1) by (simp add: aggregate_def Let_def m s int_of_float_def)
qed

lemma aggregate_quiet:
  assumes "\<not> trunc_rat clock - last_time c \<ge> 5"
  shows "aggregate cfg c (process_num, session_count) clock =
     Inr ([], c\<lparr>total_msg_count := total_msg_count c + 1,
                 total_session_count := total_session_count c + int session_count\<rparr>)"
  using assms by (simp add: aggregate_def Let_def)

lemma aggregate_totals:
  assumes "aggregate cfg c (process_num, session_count) clock = Inr (out, c')"
  shows "total_msg_count c' = total_msg_count c + 1 \<and>
         total_session_count c' = total_session_count c + int session_count"
proof (cases "trunc_rat clock - last_time c \<ge> 5")
  case False
  with assms show ?thesis by (auto simp: aggregate_quiet)
next
  case True
  let ?m = "py_truediv (total_msg_count c + 1 - last_total_msg_count c) (trunc_rat clock - last_time c)"
  let ?s = "py_truediv (total_session_count c + int session_count - last_total_session_count c)
              (trunc_rat clock - last_time c)"
  from py_truediv_cases [of "total_msg_count c + 1 - last_total_msg_count c" "trunc_rat clock - last_time c"]
  show ?thesis
  proof
    assume "\<exists>e. ?m = Inl e"
    then obtain e where "?m = Inl e" ..
    with assms True show ?thesis by (simp add: aggregate_def Let_def)
  next
    assume "\<exists>q. ?m = Inr (Fin q)"
    then obtain q where q: "?m = Inr (Fin q)" ..
    from py_truediv_cases [of "total_session_count c + int session_count - last_total_session_count c"
        "trunc_rat clock - last_time c"]
    show ?thesis
    proof
      assume "\<exists>e. ?s = Inl e"
      then obtain e where "?s = Inl e" ..
      with assms True q show ?thesis by (simp add: aggregate_def Let_def)
    next
      assume "\<exists>r. ?s = Inr (Fin r)"
      then obtain r where "?s = Inr (Fin r)" ..
      with assms True q show ?thesis
        by (auto simp: aggregate_def Let_def int_of_float_def)
    qed
  qed
qed

lemma aggregate_all_Cons_Inr:
  "aggregate_all cfg c ((result, clock) # rest) = Inr (outs, c'') \<longleftrightarrow>
     (\<exists>out c' out'. aggregate cfg c result clock = Inr (out, c') \<and>
        aggregate_all cfg c' rest = Inr (out', c'') \<and> outs = out @ out')"
  by (auto split: sum.splits)

lemma aggregate_all_totals:
  "aggregate_all cfg c inputs = Inr (outs, c'') \<Longrightarrow>
     total_msg_count c'' = total_msg_count c + int (length inputs) \<and>
     total_session_count c'' =
       total_session_count c + int (sum_list (map (\<lambda>(result, clock). snd result) inputs))"
proof (induction inputs arbitrary: c outs)
  case Nil
  then show ?case by simp
next
  case (Cons x inputs)
  obtain process_num session_count clock where x: "x = ((process_num, session_count), clock)"
    by (cases x) auto
  from Cons.prems obtain out c' out' where
    a: "aggregate cfg c (process_num, session_count) clock = Inr (out, c')"
    and r: "aggregate_all cfg c' inputs = Inr (out', c'')"
    unfolding x aggregate_all_Cons_Inr by blast
  from aggregate_totals [OF a] Cons.IH [OF r] show ?case
    by (simp add: x)
qed

lemma aggregate_all_append:
  "aggregate_all cfg c (xs @ ys) = Inr (outs, c'') \<Longrightarrow>
     \<exists>o1 c1 o2. aggregate_all cfg c xs = Inr (o1, c1) \<and>
        aggregate_all cfg c1 ys = Inr (o2, c'') \<and> outs = o1 @ o2"
proof (induction xs arbitrary: c outs)
  case Nil
  then show ?case by simp
next
  case (Cons x xs)
  obtain result clock where x: "x = (result, clock)" by (cases x)
  from Cons.prems obtain out c' out' where
    a: "aggregate cfg c result clock = Inr (out, c')"
    and r: "aggregate_all cfg c' (xs @ ys) = Inr (out', c'')" and o: "outs = out @ out'"
    unfolding x append_Cons aggregate_all_Cons_Inr by blast
  from Cons.IH [OF r] obtain o1 c1 o2 where
    "aggregate_all cfg c' xs = Inr (o1, c1)" "aggregate_all cfg c1 ys = Inr (o2, c'')"
    "out' = o1 @ o2"
    by blast
  with a o show ?case
    unfolding x aggregate_all_Cons_Inr by auto
qed

lemma aggregate_all_prefix:
  assumes "aggregate_all cfg c (inputs @ later) = Inr (outs, c'')"
  shows "\<exists>o1 c1. aggregate_all cfg c inputs = Inr (o1, c1) \<and>
           total_msg_count c1 = total_msg_count c + int (length inputs) \<and>
           total_msg_count c1 \<le> total_msg_count c'' \<and>
           total_session_count c \<le> total_session_count c1 \<and>
           total_session_count c1 \<le> total_session_count c''"
proof -
  from aggregate_all_append [OF assms] obtain o1 c1 o2 where
    p: "aggregate_all cfg c inputs = Inr (o1, c1)" and q: "aggregate_all cfg c1 later = Inr (o2, c'')"
    by blast
  from aggregate_all_totals [OF p] aggregate_all_totals [OF q] p
  show ?thesis by simp
qed

text \<open>
  Claim C7. Each result taken from the queue adds one to the total of messages and its
  session count to the total of sessions; neither total ever decreases, over one step or
  over any run of the loop, and no step resets them. When the clock, in whole seconds, is
  at least 5 past the time of the last report (which it is whenever at least 5 seconds
  have elapsed since then), the step prints one report with the messages per second and
  the sessions per second over the interval since the last report, and then sets the
  time and the two counters of the last report to the clock and the current totals.
\<close>

theorem aggregator_reports_and_keeps_totals:
  "(\<forall>out c'. aggregate cfg c (process_num, session_count) clock = Inr (out, c') \<longrightarrow>
      total_msg_count c' = total_msg_count c + 1 \<and>
      total_session_count c' = total_session_count c + int session_count \<and>
      total_session_count c \<le> total_session_count c') \<and>
   (trunc_rat clock - last_time c \<ge> 5 \<and>
    \<bar>rat_of_int (total_msg_count c + 1 - last_total_msg_count c) /
      rat_of_int (trunc_rat clock - last_time c)\<bar> < 2 ^ 1024 - 2 ^ 970 \<and>
    \<bar>rat_of_int (total_session_count c + int session_count - last_total_session_count c) /
      rat_of_int (trunc_rat clock - last_time c)\<bar> < 2 ^ 1024 - 2 ^ 970 \<longrightarrow>
      aggregate cfg c (process_num, session_count) clock =
        Inr ([Report (rabbitmq_exchange cfg) (total_msg_count c + 1)
                (Fin (round_double
                   (rat_of_int (total_msg_count c + 1 - last_total_msg_count c) /
                    rat_of_int (trunc_rat clock - last_time c))))
                (trunc_rat
                   (round_double
                      (rat_of_int (total_session_count c + int session_count -
                                   last_total_session_count c) /
                       rat_of_int (trunc_rat clock - last_time c))))],
             c\<lparr>total_msg_count := total_msg_count c + 1,
               total_session_count := total_session_count c + int session_count,
               last_time := trunc_rat clock,
               last_total_msg_count := total_msg_count c + 1,
               last_total_session_count := total_session_count c + int session_count\<rparr>)) \<and>
   (\<forall>t0. 0 \<le> t0 \<and> last_time c = trunc_rat t0 \<and> t0 + 5 \<le> clock \<longrightarrow>
      trunc_rat clock - last_time c \<ge> 5) \<and>
   (\<forall>outs c''. aggregate_all cfg c (inputs @ later) = Inr (outs, c'') \<longrightarrow>
      (\<exists>o1 c1. aggregate_all cfg c inputs = Inr (o1, c1) \<and>
         total_msg_count c1 = total_msg_count c + int (length inputs) \<and>
         total_msg_count c1 \<le> total_msg_count c'' \<and>
         total_session_count c \<le> total_session_count c1 \<and>
         total_session_count c1 \<le> total_session_count c''))"
proof (intro conjI allI impI)
  fix out c'
  assume a: "aggregate cfg c (process_num, session_count) clock = Inr (out, c')"
  from aggregate_totals [OF a]
  show "total_msg_count c' = total_msg_count c + 1"
    and s: "total_session_count c' = total_session_count c + int session_count"
    by blast+
  show "total_session_count c \<le> total_session_count c'" by (simp add: s)
next
  assume "trunc_rat clock - last_time c \<ge> 5 \<and>
    \<bar>rat_of_int (total_msg_count c + 1 - last_total_msg_count c) /
      rat_of_int (trunc_rat clock - last_time c)\<bar> < 2 ^ 1024 - 2 ^ 970 \<and>
    \<bar>rat_of_int (total_session_count c + int session_count - last_total_session_count c) /
      rat_of_int (trunc_rat clock - last_time c)\<bar> < 2 ^ 1024 - 2 ^ 970"
  then show "aggregate cfg c (process_num, session_count) clock =
        Inr ([Report (rabbitmq_exchange cfg) (total_msg_count c + 1)
                (Fin (round_double
                   (rat_of_int (total_msg_count c + 1 - last_total_msg_count c) /
                    rat_of_int (trunc_rat clock - last_time c))))
                (trunc_rat
                   (round_double
                      (rat_of_int (total_session_count c + int session_count -
                                   last_total_session_count c) /
                       rat_of_int (trunc_rat clock - last_time c))))],
             c\<lparr>total_msg_count := total_msg_count c + 1,
               total_session_count := total_session_count c + int session_count,
               last_time := trunc_rat clock,
               last_total_msg_count := total_msg_count c + 1,
               last_total_session_count := total_session_count c + int session_count\<rparr>)"
    by (intro aggregate_report) blast+
next
  fix t0 assume "0 \<le> t0 \<and> last_time c = trunc_rat t0 \<and> t0 + 5 \<le> clock"
  then show "trunc_rat clock - last_time c \<ge> 5"
    using trunc_rat_elapsed [of t0 clock] by simp
next
  fix outs c''
  assume "aggregate_all cfg c (inputs @ later) = Inr (outs, c'')"
  then show "\<exists>o1 c1. aggregate_all cfg c inputs = Inr (o1, c1) \<and>
         total_msg_count c1 = total_msg_count c + int (length inputs) \<and>
         total_msg_count c1 \<le> total_msg_count c'' \<and>
         total_session_count c \<le> total_session_count c1 \<and>
         total_session_count c1 \<le> total_session_count c''"
    by (rule aggregate_all_prefix)
qed

lemma trunc_rat_of_int: "trunc_rat (rat_of_int n) = n"
  by (simp add: trunc_rat_def)

theorem aggregator_reports_and_keeps_totals_witness:
  "trunc_rat 106 - last_time (initial_counters 100) \<ge> 5 \<and>
   aggregate example_config (initial_counters 100) (0, 30) 106 =
     Inr ([Report ''alerts'' 1 (Fin (6004799503160661 / 2 ^ 55)) 5],
          \<lparr>total_msg_count = 1, last_total_msg_count = 1, total_session_count = 30,
           last_total_session_count = 30, last_time = 106\<rparr>)"
proof -
  have t: "trunc_rat 106 = 106" "trunc_rat 100 = 100"
    using trunc_rat_of_int [of 106] trunc_rat_of_int [of 100] by simp_all
  have h: "trunc_rat 106 - last_time (initial_counters 100) \<ge> 5"
    by (simp add: initial_counters_def t)
  have z: "trunc_rat 5 = 5" by (simp add: trunc_rat_def)
  have b1: "\<bar>rat_of_int (total_msg_count (initial_counters 100) + 1 -
                  last_total_msg_count (initial_counters 100)) /
            rat_of_int (trunc_rat 106 - last_time (initial_counters 100))\<bar> < 2 ^ 1024 - 2 ^ 970"
    by (simp add: initial_counters_def t)
  have b2: "\<bar>rat_of_int (total_session_count (initial_counters 100) + int 30 -
                  last_total_session_count (initial_counters 100)) /
            rat_of_int (trunc_rat 106 - last_time (initial_counters 100))\<bar> < 2 ^ 1024 - 2 ^ 970"
    by (simp add: initial_counters_def t)
  from aggregator_reports_and_keeps_totals
    [where cfg = example_config and c = "initial_counters 100" and process_num = 0
       and session_count = 30 and clock = 106,
     THEN conjunct2, THEN conjunct1, rule_format, OF conjI [OF h conjI [OF b1 b2]]]
  have "aggregate example_config (initial_counters 100) (0, 30) 106 =
     Inr ([Report ''alerts'' 1 (Fin (6004799503160661 / 2 ^ 55)) 5],
          \<lparr>total_msg_count = 1, last_total_msg_count = 1, total_session_count = 30,
           last_total_session_count = 30, last_time = 106\<rparr>)"
    by (simp add: initial_counters_def t z example_config_def round_double_sixth round_double_5)
  with h show ?thesis by blast
qed

section \<open>Facts about the Topology Initializer\<close>

lemma add_vhost_result:
  "add_vhost cfg b =
     (if refusing b then Inl (Exit 1)
      else Inr (if rabbitmq_vhost cfg \<in> set (vhosts b) then b
                else b\<lparr>vhosts := vhosts b @ [rabbitmq_vhost cfg]\<rparr>))"
  by (simp add: add_vhost_def broker_put_vhost_def reply_ok_def raises_for_status_def)

lemma add_vhost_present:
  "\<not> refusing b \<Longrightarrow> rabbitmq_vhost cfg \<in> set (vhosts b) \<Longrightarrow> add_vhost cfg b = Inr b"
  by (simp add: add_vhost_result)

lemma start_declarations_Inr:
  assumes "start_declarations cfg b = Inr (b1, ch)"
  shows "\<not> refusing b1 \<and> rabbitmq_vhost cfg \<in> set (vhosts b1) \<and>
         map_of (exchanges b1) (rabbitmq_vhost cfg, rabbitmq_exchange cfg) = Some True \<and>
         (rabbitmq_vhost cfg, rabbitmq_exchange cfg @ ''_q'') \<in> set (queues b1) \<and>
         (rabbitmq_vhost cfg, rabbitmq_exchange cfg @ ''_q'', rabbitmq_exchange cfg, [])
           \<in> set (bindings b1) \<and>
         ch = \<lparr>channel_vhost = rabbitmq_vhost cfg, prefetch_count = 10\<rparr>"
  using assms
  by (auto simp: start_declarations_def broker_connect_def broker_exchange_declare_def
        broker_queue_declare_def broker_queue_bind_def Let_def map_add_def
      split: if_splits option.splits sum.splits)

lemma start_declarations_settled:
  assumes "\<not> refusing b" and "rabbitmq_vhost cfg \<in> set (vhosts b)"
    and "map_of (exchanges b) (rabbitmq_vhost cfg, rabbitmq_exchange cfg) = Some True"
    and "(rabbitmq_vhost cfg, rabbitmq_exchange cfg @ ''_q'') \<in> set (queues b)"
    and "(rabbitmq_vhost cfg, rabbitmq_exchange cfg @ ''_q'', rabbitmq_exchange cfg, [])
           \<in> set (bindings b)"
  shows "start_declarations cfg b =
           Inr (b, \<lparr>channel_vhost = rabbitmq_vhost cfg, prefetch_count = 10\<rparr>)"
  using assms
  by (simp add: start_declarations_def broker_connect_def broker_exchange_declare_def
        broker_queue_declare_def broker_queue_bind_def)

text \<open>
  Claim C8. After an invocation of the initializer that succeeded, a second invocation
  with the same configuration succeeds as well and returns the broker state it was given,
  unchanged, with the same channel settings. In that state the virtual host exists, the
  exchange exists and is durable, the queue named after the exchange with \<^verbatim>\<open>_q\<close>
  appended exists and is bound to the exchange with the empty routing key, and the
  prefetch count of the channel is 10.
\<close>

theorem topology_initializer_idempotent:
  assumes "topology_initializer cfg b = Inr (b1, ch)"
  shows "topology_initializer cfg b1 = Inr (b1, ch) \<and>
         rabbitmq_vhost cfg \<in> set (vhosts b1) \<and>
         map_of (exchanges b1) (rabbitmq_vhost cfg, rabbitmq_exchange cfg) = Some True \<and>
         (rabbitmq_vhost cfg, rabbitmq_exchange cfg @ ''_q'') \<in> set (queues b1) \<and>
         (rabbitmq_vhost cfg, rabbitmq_exchange cfg @ ''_q'', rabbitmq_exchange cfg, [])
           \<in> set (bindings b1) \<and>
         prefetch_count ch = 10"
proof -
  from assms obtain b0 where "add_vhost cfg b = Inr b0"
    and s: "start_declarations cfg b0 = Inr (b1, ch)"
    by (auto simp: topology_initializer_def split: sum.splits)
  note f = start_declarations_Inr [OF s]
  from f have ch: "ch = \<lparr>channel_vhost = rabbitmq_vhost cfg, prefetch_count = 10\<rparr>" by blast
  have "add_vhost cfg b1 = Inr b1"
    using f by (intro add_vhost_present) blast+
  moreover have "start_declarations cfg b1 = Inr (b1, ch)"
    unfolding ch using f by (intro start_declarations_settled) blast+
  ultimately have "topology_initializer cfg b1 = Inr (b1, ch)"
    by (simp add: topology_initializer_def)
  then show ?thesis using f by (simp add: ch)
qed

theorem topology_initializer_idempotent_witness:
  "topology_initializer example_config \<lparr>refusing = False, vhosts = [], exchanges = [], queues = [], bindings = []\<rparr> =
     Inr (\<lparr>refusing = False, vhosts = [''dx''], exchanges = [((''dx'', ''alerts''), True)],
           queues = [(''dx'', ''alerts_q'')],
           bindings = [(''dx'', ''alerts_q'', ''alerts'', [])]\<rparr>,
          \<lparr>channel_vhost = ''dx'', prefetch_count = 10\<rparr>) \<and>
   topology_initializer example_config
     \<lparr>refusing = False, vhosts = [''dx''], exchanges = [((''dx'', ''alerts''), True)],
      queues = [(''dx'', ''alerts_q'')],
      bindings = [(''dx'', ''alerts_q'', ''alerts'', [])]\<rparr> =
     Inr (\<lparr>refusing = False, vhosts = [''dx''], exchanges = [((''dx'', ''alerts''), True)],
           queues = [(''dx'', ''alerts_q'')],
           bindings = [(''dx'', ''alerts_q'', ''alerts'', [])]\<rparr>,
          \<lparr>channel_vhost = ''dx'', prefetch_count = 10\<rparr>)"
proof -
  have h: "topology_initializer example_config \<lparr>refusing = False, vhosts = [], exchanges = [], queues = [], bindings = []\<rparr> =
     Inr (\<lparr>refusing = False, vhosts = [''dx''], exchanges = [((''dx'', ''alerts''), True)],
           queues = [(''dx'', ''alerts_q'')],
           bindings = [(''dx'', ''alerts_q'', ''alerts'', [])]\<rparr>,
          \<lparr>channel_vhost = ''dx'', prefetch_count = 10\<rparr>)"
    by (simp add: topology_initializer_def add_vhost_result start_declarations_def
          broker_connect_def broker_exchange_declare_def broker_queue_declare_def
          broker_queue_bind_def example_config_def Let_def)
  from topology_initializer_idempotent [OF h] h show ?thesis by blast
qed

section \<open>Facts about acknowledgment\<close>

lemma rabbit_callback_Inl:
  "snd (send_to_splunk lib cfg (content_encoding msg) (body msg) outcome) = Inl e \<Longrightarrow>
     rabbit_callback lib cfg process_num msg outcome =
       (fst (send_to_splunk lib cfg (content_encoding msg) (body msg) outcome), Inl e)"
  by (cases "send_to_splunk lib cfg (content_encoding msg) (body msg) outcome")
     (simp add: rabbit_callback_def)

lemma rabbit_callback_Inr:
  "snd (send_to_splunk lib cfg (content_encoding msg) (body msg) outcome) = Inr n \<Longrightarrow>
     rabbit_callback lib cfg process_num msg outcome =
       (fst (send_to_splunk lib cfg (content_encoding msg) (body msg) outcome) @
          [Ack (delivery_tag msg), Put process_num n], Inr ())"
  by (cases "send_to_splunk lib cfg (content_encoding msg) (body msg) outcome")
     (simp add: rabbit_callback_def)

lemma send_to_splunk_no_Put: "Put a n \<notin> set (fst (send_to_splunk lib cfg enc raw outcome))"
  by (auto simp: send_to_splunk_def Let_def split: sum.splits post_outcome.splits if_splits)

lemma rabbit_callback_failed_outcome:
  assumes "(\<exists>m. outcome = RequestException m) \<or>
           (\<exists>status reason. outcome = Reply status reason \<and> 400 \<le> status \<and> status < 600)"
  shows "\<exists>e. snd (rabbit_callback lib cfg process_num msg outcome) = Inl e"
proof (cases "snd (send_to_splunk lib cfg (content_encoding msg) (body msg) outcome)")
  case (Inl e)
  then show ?thesis by (simp add: rabbit_callback_Inl)
next
  case (Inr n)
  then have "\<exists>status reason. outcome = Reply status reason \<and> \<not> raises_for_status status"
    unfolding send_to_splunk_Inr by blast
  with assms show ?thesis by (auto simp: raises_for_status_def)
qed

lemma rabbit_callback_error_no_ack:
  assumes "snd (rabbit_callback lib cfg process_num msg outcome) = Inl e"
  shows "(\<forall>t. Ack t \<notin> set (fst (rabbit_callback lib cfg process_num msg outcome))) \<and>
         (\<forall>a n. Put a n \<notin> set (fst (rabbit_callback lib cfg process_num msg outcome))) \<and>
         start_consuming lib cfg process_num ((msg, outcome) # rest) =
           rabbit_callback lib cfg process_num msg outcome"
proof (cases "snd (send_to_splunk lib cfg (content_encoding msg) (body msg) outcome)")
  case (Inl e')
  note r = rabbit_callback_Inl [OF Inl, of process_num]
  show ?thesis
    by (simp add: r send_to_splunk_no_Ack send_to_splunk_no_Put)
next
  case (Inr n)
  from assms show ?thesis by (simp add: rabbit_callback_Inr [OF Inr])
qed

lemma rabbit_callback_ack:
  assumes "Ack t \<in> set (fst (rabbit_callback lib cfg process_num msg outcome))"
  shows "t = delivery_tag msg \<and>
         (\<exists>status reason. outcome = Reply status reason \<and> \<not> (400 \<le> status \<and> status < 600)) \<and>
         (\<exists>before data after.
            fst (rabbit_callback lib cfg process_num msg outcome) =
              before @ Post (splunk_url cfg) (''Splunk '' @ splunk_token cfg) data # after \<and>
            Ack t \<notin> set before \<and> Ack t \<in> set after)"
proof (cases "snd (send_to_splunk lib cfg (content_encoding msg) (body msg) outcome)")
  case (Inl e)
  from assms show ?thesis
    by (simp add: rabbit_callback_Inl [OF Inl] send_to_splunk_no_Ack)
next
  case (Inr n)
  note r = rabbit_callback_Inr [OF Inr, of process_num]
  from assms have t: "t = delivery_tag msg"
    by (simp add: r send_to_splunk_no_Ack)
  from Inr obtain json_str loaded evs status reason where
    d: "decode_body lib (content_encoding msg) (body msg) = Inr json_str"
    and l: "json_loads lib json_str = Inr loaded"
    and e: "event_list lib (as_list loaded) = Inr evs"
    and o: "outcome = Reply status reason" and ok: "\<not> raises_for_status status"
    unfolding send_to_splunk_Inr by blast
  note s = send_to_splunk_delivered [OF d l e ok, of cfg reason]
  let ?before = "if debug cfg then [Print (newline @ ''Sending data: '' @ json_str @ newline)] else []"
  let ?after = "(if verbose cfg then [Print ''.''] else []) @
                  [Ack (delivery_tag msg), Put process_num n]"
  have "fst (rabbit_callback lib cfg process_num msg outcome) =
          ?before @ Post (splunk_url cfg) (''Splunk '' @ splunk_token cfg) (event_data evs) # ?after"
    unfolding r unfolding o s by simp
  moreover have "Ack t \<notin> set ?before" by simp
  moreover have "Ack t \<in> set ?after" by (simp add: t)
  ultimately have "\<exists>before data after.
            fst (rabbit_callback lib cfg process_num msg outcome) =
              before @ Post (splunk_url cfg) (''Splunk '' @ splunk_token cfg) data # after \<and>
            Ack t \<notin> set before \<and> Ack t \<in> set after"
    by blast
  then show ?thesis using t o ok by (simp add: raises_for_status_def)
qed

text \<open>
  Claim C1, as the code has it. If the POST raises a \<^verbatim>\<open>RequestException\<close> or the reply
  has a status from 400 to 599, the callback ends with an exception. Whenever the callback
  ends with an exception, whatever its cause, it has acknowledged nothing and put nothing
  on the result queue, and the worker handles no later delivery. If the callback
  acknowledges, it acknowledges the delivery tag of the message, the reply had a status
  outside 400 to 599, and the POST comes before the acknowledgment.
\<close>

theorem ack_only_after_delivery:
  "((\<exists>m. outcome = RequestException m) \<or>
    (\<exists>status reason. outcome = Reply status reason \<and> 400 \<le> status \<and> status < 600) \<longrightarrow>
      (\<exists>e. snd (rabbit_callback lib cfg process_num msg outcome) = Inl e)) \<and>
   (\<forall>e. snd (rabbit_callback lib cfg process_num msg outcome) = Inl e \<longrightarrow>
      (\<forall>t. Ack t \<notin> set (fst (rabbit_callback lib cfg process_num msg outcome))) \<and>
      (\<forall>a n. Put a n \<notin> set (fst (rabbit_callback lib cfg process_num msg outcome))) \<and>
      start_consuming lib cfg process_num ((msg, outcome) # rest) =
        rabbit_callback lib cfg process_num msg outcome) \<and>
   (\<forall>t. Ack t \<in> set (fst (rabbit_callback lib cfg process_num msg outcome)) \<longrightarrow>
      t = delivery_tag msg \<and>
      (\<exists>status reason. outcome = Reply status reason \<and> \<not> (400 \<le> status \<and> status < 600)) \<and>
      (\<exists>before data after.
         fst (rabbit_callback lib cfg process_num msg outcome) =
           before @ Post (splunk_url cfg) (''Splunk '' @ splunk_token cfg) data # after \<and>
         Ack t \<notin> set before \<and> Ack t \<in> set after))"
  using rabbit_callback_failed_outcome [of outcome lib cfg process_num msg]
    rabbit_callback_error_no_ack [of lib cfg process_num msg outcome _ rest]
    rabbit_callback_ack [of _ lib cfg process_num msg outcome]
  by blast

theorem ack_only_after_delivery_witness:
  \<open>(\<exists>status reason. Reply 500 ''Internal Server Error'' = Reply status reason \<and>
       400 \<le> status \<and> status < 600) \<and>
   snd (rabbit_callback example_lib example_config 0
          \<lparr>delivery_tag = 7, content_encoding = None, body = ''{}''\<rparr>
          (Reply 500 ''Internal Server Error'')) = Inl (SystemExit 1) \<and>
   (\<forall>t. Ack t \<notin> set (fst (rabbit_callback example_lib example_config 0
          \<lparr>delivery_tag = 7, content_encoding = None, body = ''{}''\<rparr>
          (Reply 500 ''Internal Server Error'')))) \<and>
   start_consuming example_lib example_config 0
     [(\<lparr>delivery_tag = 7, content_encoding = None, body = ''{}''\<rparr>, Reply 500 ''Internal Server Error''),
      (\<lparr>delivery_tag = 8, content_encoding = None, body = ''{}''\<rparr>, Reply 200 ''OK'')] =
     rabbit_callback example_lib example_config 0
          \<lparr>delivery_tag = 7, content_encoding = None, body = ''{}''\<rparr>
          (Reply 500 ''Internal Server Error'') \<and>
   Ack 7 \<in> set (fst (rabbit_callback example_lib example_config 0
          \<lparr>delivery_tag = 7, content_encoding = None, body = ''{}''\<rparr> (Reply 200 ''OK'')))\<close>
proof -
  let ?m = "\<lparr>delivery_tag = 7, content_encoding = None, body = ''{}''\<rparr>"
  let ?n = "\<lparr>delivery_tag = 8, content_encoding = None, body = ''{}''\<rparr>"
  let ?o = "Reply 500 ''Internal Server Error''"
  have h: "\<exists>status reason. ?o = Reply status reason \<and> 400 \<le> status \<and> status < 600"
    by simp
  have s: "snd (rabbit_callback example_lib example_config 0 ?m ?o) = Inl (SystemExit 1)"
    by (simp add: run_defs)
  have k: "Ack 7 \<in> set (fst (rabbit_callback example_lib example_config 0 ?m (Reply 200 ''OK'')))"
    by (simp add: run_defs)
  note t = ack_only_after_delivery [where lib = example_lib and cfg = example_config
      and process_num = 0 and msg = ?m and outcome = ?o and rest = "[(?n, Reply 200 ''OK'')]"]
  from t [THEN conjunct2, THEN conjunct1, rule_format, OF s] h s k
  show ?thesis by blast
qed

text \<open>
  The claim as the specification words it counts every reply that is not 2xx as a failure.
  \<^verbatim>\<open>raise_for_status\<close> and \<^verbatim>\<open>ok\<close> do not: a reply with status 304 is not 2xx, and the
  message is acknowledged.
\<close>

theorem non_2xx_reply_is_acknowledged_counterexample:
  \<open>(304 :: nat) \<notin> {200 ..< 300} \<and>
   rabbit_callback example_lib example_config 0
     \<lparr>delivery_tag = 7, content_encoding = None, body = ''{}''\<rparr> (Reply 304 ''Not Modified'') =
     ([Post ''https://splunk:8088/services/collector'' ''Splunk token'' ''{"event": {}}'',
       Ack 7, Put 0 1], Inr ())\<close>
  by (simp add: run_defs)

end
